theory Spec2Isabelle
  imports Complex_Main "HOL-Library.Word" "HOL-Library.Signed_Division" "HOL-Library.Sublist"
begin

section \<open>JavaScript values\<close>

text \<open>
  The client is TypeScript running on React Native. Its values are modelled as follows.
  \<^item> A string is its sequence of UTF-16 code units (\<open>jsstring\<close>); \<open>lit\<close> embeds an ASCII
    literal of the source.
  \<^item> A \<open>number\<close> is modelled by an exact real. \<open>NaN\<close> and the infinities are outside the
    model, and so is the rounding of doubles: all constants of the source (the rates, the
    progress checkpoints, 1000, 60, 3000) are exactly representable doubles.
  \<^item> A parsed JSON document or an \<open>any\<close>-typed value is a \<open>jsval\<close>.
  \<^item> A rejected promise or a thrown exception is the \<open>Inl\<close> branch of a sum.
\<close>

type_synonym jsstring = "16 word list"

definition lit :: "string \<Rightarrow> jsstring" where
  "lit s = map of_char s"

datatype jsval =
    Undefined
  | Null
  | Bool bool
  | Num real
  | Str jsstring
  | Arr "jsval list"
  | Obj "(jsstring \<times> jsval) list"

text \<open>Truthiness, as used by \<open>!x\<close>, \<open>x || y\<close> and \<open>x && y\<close>.\<close>

fun truthy :: "jsval \<Rightarrow> bool" where
  "truthy Undefined = False"
| "truthy Null = False"
| "truthy (Bool b) = b"
| "truthy (Num r) = (r \<noteq> 0)"
| "truthy (Str s) = (s \<noteq> [])"
| "truthy (Arr xs) = True"
| "truthy (Obj kvs) = True"

datatype js_error =
    Error jsstring    \<comment> \<open>\<open>throw new Error(message)\<close>\<close>
  | TypeError         \<comment> \<open>property read on \<open>null\<close> or \<open>undefined\<close>\<close>
  | SyntaxError       \<comment> \<open>\<open>response.json()\<close> on a body that is not JSON\<close>
  | Rejected jsstring \<comment> \<open>a rejection raised inside a library call\<close>

text \<open>
  \<open>v.name\<close> for the property names the client reads (\<open>url\<close>, \<open>playback_url\<close>,
  \<open>filename\<close>, \<open>videos\<close>): none of them is an own or inherited property of a primitive
  or of an array, so only an object can hold one.
\<close>

fun get_prop :: "jsval \<Rightarrow> jsstring \<Rightarrow> js_error + jsval" where
  "get_prop Undefined name = Inl TypeError"
| "get_prop Null name = Inl TypeError"
| "get_prop (Obj kvs) name = Inr (case map_of kvs name of None \<Rightarrow> Undefined | Some v \<Rightarrow> v)"
| "get_prop v name = Inr Undefined"

text \<open>\<open>v?.name\<close>\<close>

fun get_prop_opt :: "jsval \<Rightarrow> jsstring \<Rightarrow> jsval" where
  "get_prop_opt (Obj kvs) name = (case map_of kvs name of None \<Rightarrow> Undefined | Some v \<Rightarrow> v)"
| "get_prop_opt v name = Undefined"

subsection \<open>Strings\<close>

text \<open>
  \<open>String.prototype.trim\<close> removes the code units of ECMAScript's WhiteSpace and
  LineTerminator productions from both ends.
\<close>

definition is_whitespace :: "16 word \<Rightarrow> bool" where
  "is_whitespace c =
     (c \<in> set [0x0009, 0x000A, 0x000B, 0x000C, 0x000D, 0x0020, 0x00A0, 0x1680,
                0x2000, 0x2001, 0x2002, 0x2003, 0x2004, 0x2005, 0x2006, 0x2007,
                0x2008, 0x2009, 0x200A, 0x2028, 0x2029, 0x202F, 0x205F, 0x3000, 0xFEFF])"

definition trim :: "jsstring \<Rightarrow> jsstring" where
  "trim s = rev (dropWhile is_whitespace (rev (dropWhile is_whitespace s)))"

text \<open>
  \<open>Number.prototype.toString\<close> on an integer value: decimal digits, with a minus sign
  when negative.
\<close>

fun digits :: "nat \<Rightarrow> jsstring" where
  "digits n =
     (if n < 10 then [of_nat (48 + n)]
      else digits (n div 10) @ [of_nat (48 + n mod 10)])"

declare digits.simps [simp del]

definition number_toString :: "int \<Rightarrow> jsstring" where
  "number_toString k = (if k < 0 then lit ''-'' @ digits (nat (- k)) else digits (nat k))"

text \<open>\<open>s.padStart(targetLength, padString)\<close>\<close>

definition padStart :: "jsstring \<Rightarrow> nat \<Rightarrow> jsstring \<Rightarrow> jsstring" where
  "padStart s targetLength padString =
     (if targetLength \<le> length s \<or> padString = [] then s
      else take (targetLength - length s)
             (concat (replicate (targetLength - length s) padString)) @ s)"

section \<open>The remote service\<close>

text \<open>
  What the network answers is an input of the model. A request is either a \<open>fetch\<close> (URL,
  method, JSON body before \<open>JSON.stringify\<close>) or the file transfer of
  \<open>FileSystem.uploadAsync\<close> (URL, local file URI, always a PUT). The answer is a rejection
  or a response, of which the client reads \<open>ok\<close>, \<open>status\<close> (here \<open>http_status\<close>),
  \<open>statusText\<close> and the parsed body (\<open>None\<close> when the body is not JSON).
\<close>

record response =
  ok :: bool
  http_status :: int
  statusText :: jsstring
  json :: "jsval option"

datatype request =
    Fetch jsstring jsstring "jsval option"
  | UploadAsync jsval jsstring

type_synonym remote = "request \<Rightarrow> js_error + response"

section \<open>The home screen\<close>

record home_state =
  videos :: jsval
  loading :: bool
  refreshing :: bool
  showUploadModal :: bool
  uploadTitle :: jsstring
  selectedVideo :: "jsstring option"
  uploading :: bool
  uploadProgress :: real

text \<open>
  A handler reads the state of the render it was created in and calls setters, the network
  and the alert box. Its model is the list of these effects in program order; the next
  state is obtained by applying the setters.
\<close>

datatype event =
    Request request
  | Alert jsstring jsstring
  | ConsoleError jsstring js_error
  | SetVideos jsval
  | SetLoading bool
  | SetRefreshing bool
  | SetShowUploadModal bool
  | SetUploadTitle jsstring
  | SetSelectedVideo "jsstring option"
  | SetUploading bool
  | SetUploadProgress real

fun apply_event :: "home_state \<Rightarrow> event \<Rightarrow> home_state" where
  "apply_event st (SetVideos v) = st\<lparr>videos := v\<rparr>"
| "apply_event st (SetLoading b) = st\<lparr>loading := b\<rparr>"
| "apply_event st (SetRefreshing b) = st\<lparr>refreshing := b\<rparr>"
| "apply_event st (SetShowUploadModal b) = st\<lparr>showUploadModal := b\<rparr>"
| "apply_event st (SetUploadTitle t) = st\<lparr>uploadTitle := t\<rparr>"
| "apply_event st (SetSelectedVideo v) = st\<lparr>selectedVideo := v\<rparr>"
| "apply_event st (SetUploading b) = st\<lparr>uploading := b\<rparr>"
| "apply_event st (SetUploadProgress p) = st\<lparr>uploadProgress := p\<rparr>"
| "apply_event st e = st"

definition run_events :: "home_state \<Rightarrow> event list \<Rightarrow> home_state" where
  "run_events st es = foldl apply_event st es"

text \<open>
  Projections of a trace: the requests it makes, the values it writes to the upload
  progress, the alerts it shows and the snapshots it stores in \<open>videos\<close>.
\<close>

fun requests :: "event list \<Rightarrow> request list" where
  "requests [] = []"
| "requests (Request r # es) = r # requests es"
| "requests (e # es) = requests es"

fun progress_values :: "event list \<Rightarrow> real list" where
  "progress_values [] = []"
| "progress_values (SetUploadProgress p # es) = p # progress_values es"
| "progress_values (e # es) = progress_values es"

fun alerts :: "event list \<Rightarrow> (jsstring \<times> jsstring) list" where
  "alerts [] = []"
| "alerts (Alert t m # es) = (t, m) # alerts es"
| "alerts (e # es) = alerts es"

fun set_videos :: "event list \<Rightarrow> jsval list" where
  "set_videos [] = []"
| "set_videos (SetVideos v # es) = v # set_videos es"
| "set_videos (e # es) = set_videos es"

subsection \<open>Sequencing of asynchronous steps\<close>

text \<open>
  An \<open>async\<close> computation yields the effects it performed and either the error it threw
  or its value. \<open>and_then\<close> is \<open>await\<close> followed by the rest of the function body: a
  rejection skips the rest.
\<close>

type_synonym 'a async = "event list \<times> (js_error + 'a)"

definition and_then :: "'a async \<Rightarrow> ('a \<Rightarrow> 'b async) \<Rightarrow> 'b async" where
  "and_then m f =
     (case m of
        (t, Inl e) \<Rightarrow> (t, Inl e)
      | (t, Inr x) \<Rightarrow> (case f x of (t', r) \<Rightarrow> (t @ t', r)))"

definition emit :: "event list \<Rightarrow> unit async" where
  "emit es = (es, Inr ())"

definition lift :: "js_error + 'a \<Rightarrow> 'a async" where
  "lift r = ([], r)"

subsection \<open>videoAPI\<close>

definition API_BASE_URL :: jsstring where
  "API_BASE_URL = lit ''http://3.110.108.64:8080''"

definition getUploadURL :: "remote \<Rightarrow> jsval async" where
  "getUploadURL net =
     (let req = Fetch (API_BASE_URL @ lit ''/videos/upload-url'') (lit ''POST'') None in
      ([Request req],
       case net req of
         Inl e \<Rightarrow> Inl e
       | Inr response \<Rightarrow>
           if \<not> ok response
           then Inl (Error (lit ''Failed to get upload URL: '' @ statusText response))
           else (case json response of None \<Rightarrow> Inl SyntaxError | Some v \<Rightarrow> Inr v)))"

definition uploadVideoFile :: "remote \<Rightarrow> jsval \<Rightarrow> jsstring \<Rightarrow> unit async" where
  "uploadVideoFile net uploadUrl fileUri =
     (let req = UploadAsync uploadUrl fileUri in
      ([Request req],
       case net req of
         Inl e \<Rightarrow> Inl e
       | Inr response \<Rightarrow>
           if http_status response \<noteq> 200
           then Inl (Error (lit ''Failed to upload video: '' @ number_toString (http_status response)))
           else Inr ()))"

definition createVideoMetadata :: "remote \<Rightarrow> jsstring \<Rightarrow> jsval \<Rightarrow> unit async" where
  "createVideoMetadata net title filename =
     (let req = Fetch (API_BASE_URL @ lit ''/videos/'') (lit ''POST'')
                  (Some (Obj [(lit ''title'', Str title), (lit ''filename'', filename)])) in
      ([Request req],
       case net req of
         Inl e \<Rightarrow> Inl e
       | Inr response \<Rightarrow>
           if \<not> ok response
           then Inl (Error (lit ''Failed to create video metadata: '' @ statusText response))
           else Inr ()))"

definition getReadyVideos :: "remote \<Rightarrow> jsval async" where
  "getReadyVideos net =
     (let req = Fetch (API_BASE_URL @ lit ''/videos/ready'') (lit ''GET'') None in
      ([Request req],
       case net req of
         Inl e \<Rightarrow> Inl e
       | Inr response \<Rightarrow>
           if \<not> ok response
           then Inl (Error (lit ''Failed to fetch videos: '' @ statusText response))
           else (case json response of None \<Rightarrow> Inl SyntaxError | Some v \<Rightarrow> Inr v)))"

definition getPlaybackURL :: "remote \<Rightarrow> jsstring \<Rightarrow> jsval async" where
  "getPlaybackURL net vid =
     (let req = Fetch (API_BASE_URL @ lit ''/videos/'' @ vid @ lit ''/play'') (lit ''GET'') None in
      ([Request req],
       case net req of
         Inl e \<Rightarrow> Inl e
       | Inr response \<Rightarrow>
           if \<not> ok response
           then Inl (Error (lit ''Failed to get playback URL: '' @ statusText response))
           else (case json response of
                   None \<Rightarrow> Inl SyntaxError
                 | Some data \<Rightarrow>
                     (case get_prop data (lit ''url'') of
                        Inl e \<Rightarrow> Inl e
                      | Inr url \<Rightarrow>
                          if truthy url then Inr url
                          else get_prop data (lit ''playback_url'')))))"

definition deleteVideo :: "remote \<Rightarrow> jsstring \<Rightarrow> unit async" where
  "deleteVideo net vid =
     (let req = Fetch (API_BASE_URL @ lit ''/videos/'' @ vid) (lit ''DELETE'') None in
      ([Request req],
       case net req of
         Inl e \<Rightarrow> Inl e
       | Inr response \<Rightarrow>
           if \<not> ok response
           then Inl (Error (lit ''Failed to delete video: '' @ statusText response))
           else Inr ()))"

subsection \<open>Loading the catalog\<close>

text \<open>
  \<^verbatim>\<open>
  const loadVideos = async (showRefreshIndicator = false) => {
    try {
      if (showRefreshIndicator) { setRefreshing(true); } else { setLoading(true); }
      const fetchedVideos = await videoAPI.getReadyVideos();
      setVideos(fetchedVideos?.videos);
    } catch (error) {
      console.error('Failed to load videos:', error);
      Alert.alert('Error', 'Failed to load videos. Please try again.');
    } finally {
      setLoading(false);
      setRefreshing(false);
    }
  };
  \<close>
  A caller that does not await \<open>loadVideos()\<close> runs it up to its first \<open>await\<close>
  (\<open>loadVideos_begin\<close>: the indicator and the request) and goes on with its own body; the
  rest (\<open>loadVideos_end\<close>) runs when the answer arrives.
\<close>

definition loadVideos_begin :: "remote \<Rightarrow> bool \<Rightarrow> event list" where
  "loadVideos_begin net showRefreshIndicator =
     [if showRefreshIndicator then SetRefreshing True else SetLoading True]
     @ fst (getReadyVideos net)"

definition loadVideos_end :: "remote \<Rightarrow> event list" where
  "loadVideos_end net =
     (case snd (getReadyVideos net) of
        Inr fetchedVideos \<Rightarrow> [SetVideos (get_prop_opt fetchedVideos (lit ''videos''))]
      | Inl error \<Rightarrow>
          [ConsoleError (lit ''Failed to load videos:'') error,
           Alert (lit ''Error'') (lit ''Failed to load videos. Please try again.'')])
     @ [SetLoading False, SetRefreshing False]"

definition loadVideos :: "remote \<Rightarrow> bool \<Rightarrow> event list" where
  "loadVideos net showRefreshIndicator =
     loadVideos_begin net showRefreshIndicator @ loadVideos_end net"

subsection \<open>Uploading\<close>

text \<open>
  \<^verbatim>\<open>
  const handleUpload = async () => {
    if (!selectedVideo || !uploadTitle.trim()) {
      Alert.alert('Error', 'Please select a video and enter a title.');
      return;
    }
    setUploading(true);
    setUploadProgress(0);
    try {
      setUploadProgress(20);
      const uploadData = await videoAPI.getUploadURL();
      setUploadProgress(40);
      await videoAPI.uploadVideoFile(uploadData.url, selectedVideo);
      setUploadProgress(80);
      await videoAPI.createVideoMetadata(uploadTitle.trim(), uploadData.filename);
      setUploadProgress(100);
      setUploadTitle('');
      setSelectedVideo(null);
      setShowUploadModal(false);
      Alert.alert('Success', 'Video uploaded successfully!');
      loadVideos();
    } catch (error) {
      console.error('Upload failed:', error);
      Alert.alert('Error', 'Failed to upload video. Please try again.');
    } finally {
      setUploading(false);
      setUploadProgress(0);
    }
  };
  \<close>
  \<open>selectedVideo\<close> is a \<open>string | null\<close>: it is falsy when \<open>null\<close> or empty.
\<close>

definition upload_body :: "remote \<Rightarrow> home_state \<Rightarrow> jsstring \<Rightarrow> unit async" where
  "upload_body net st file =
     and_then (emit [SetUploadProgress 20]) (\<lambda>_.
     and_then (getUploadURL net) (\<lambda>uploadData.
     and_then (emit [SetUploadProgress 40]) (\<lambda>_.
     and_then (lift (get_prop uploadData (lit ''url''))) (\<lambda>url.
     and_then (uploadVideoFile net url file) (\<lambda>_.
     and_then (emit [SetUploadProgress 80]) (\<lambda>_.
     and_then (lift (get_prop uploadData (lit ''filename''))) (\<lambda>filename.
     and_then (createVideoMetadata net (trim (uploadTitle st)) filename) (\<lambda>_.
     and_then (emit [SetUploadProgress 100,
                     SetUploadTitle [],
                     SetSelectedVideo None,
                     SetShowUploadModal False,
                     Alert (lit ''Success'') (lit ''Video uploaded successfully!'')]) (\<lambda>_.
     emit (loadVideos_begin net False))))))))))"

definition handleUpload :: "remote \<Rightarrow> home_state \<Rightarrow> event list" where
  "handleUpload net st =
     (case selectedVideo st of
        None \<Rightarrow> [Alert (lit ''Error'') (lit ''Please select a video and enter a title.'')]
      | Some file \<Rightarrow>
          if file = [] \<or> trim (uploadTitle st) = []
          then [Alert (lit ''Error'') (lit ''Please select a video and enter a title.'')]
          else
            (case upload_body net st file of
               (t, Inr _) \<Rightarrow>
                 [SetUploading True, SetUploadProgress 0] @ t
                 @ [SetUploading False, SetUploadProgress 0]
                 @ loadVideos_end net
             | (t, Inl error) \<Rightarrow>
                 [SetUploading True, SetUploadProgress 0] @ t
                 @ [ConsoleError (lit ''Upload failed:'') error,
                    Alert (lit ''Error'') (lit ''Failed to upload video. Please try again.'')]
                 @ [SetUploading False, SetUploadProgress 0]))"

subsection \<open>Deleting\<close>

text \<open>
  \<open>handleDeleteVideo\<close> opens a dialog with the buttons Cancel and Delete; the user's choice
  is an input. \<open>Delete\<close> runs
  \<^verbatim>\<open>
  try {
    await videoAPI.deleteVideo(videoId);
    Alert.alert('Success', 'Video deleted successfully!');
    loadVideos();
  } catch (error) {
    console.error('Failed to delete video:', error);
    Alert.alert('Error', 'Failed to delete video.');
  }
  \<close>
\<close>

datatype dialog_choice = Cancel | Delete

definition handleDeleteVideo :: "remote \<Rightarrow> jsstring \<Rightarrow> dialog_choice \<Rightarrow> event list" where
  "handleDeleteVideo net videoId choice =
     Alert (lit ''Delete Video'') (lit ''Are you sure you want to delete this video?'')
     # (case choice of
          Cancel \<Rightarrow> []
        | Delete \<Rightarrow>
            (case deleteVideo net videoId of
               (t, Inr _) \<Rightarrow>
                 t @ [Alert (lit ''Success'') (lit ''Video deleted successfully!'')]
                 @ loadVideos net False
             | (t, Inl error) \<Rightarrow>
                 t @ [ConsoleError (lit ''Failed to delete video:'') error,
                      Alert (lit ''Error'') (lit ''Failed to delete video.'')]))"

text \<open>The state of the screen when it mounts.\<close>

definition home_initial :: home_state where
  "home_initial =
     \<lparr>videos = Arr [], loading = True, refreshing = False, showUploadModal = False,
      uploadTitle = [], selectedVideo = None, uploading = False, uploadProgress = 0\<rparr>"

subsection \<open>The requests of the upload phases\<close>

text \<open>The requests the handlers make, by name, and the test for a metadata commit.\<close>

definition acquire_request :: request where
  "acquire_request = Fetch (API_BASE_URL @ lit ''/videos/upload-url'') (lit ''POST'') None"

definition commit_request :: "jsstring \<Rightarrow> jsval \<Rightarrow> request" where
  "commit_request title filename =
     Fetch (API_BASE_URL @ lit ''/videos/'') (lit ''POST'')
       (Some (Obj [(lit ''title'', Str title), (lit ''filename'', filename)]))"

definition ready_request :: request where
  "ready_request = Fetch (API_BASE_URL @ lit ''/videos/ready'') (lit ''GET'') None"

definition playback_request :: "jsstring \<Rightarrow> request" where
  "playback_request vid = Fetch (API_BASE_URL @ lit ''/videos/'' @ vid @ lit ''/play'') (lit ''GET'') None"

definition delete_request :: "jsstring \<Rightarrow> request" where
  "delete_request vid = Fetch (API_BASE_URL @ lit ''/videos/'' @ vid) (lit ''DELETE'') None"

fun is_commit :: "request \<Rightarrow> bool" where
  "is_commit (Fetch url method body) = (url = API_BASE_URL @ lit ''/videos/'' \<and> method = lit ''POST'')"
| "is_commit (UploadAsync url file) = False"

section \<open>The player screen\<close>

text \<open>
  The status object delivered by the media engine (\<open>status\<close> is \<open>{}\<close> before the first
  delivery: every field absent, hence falsy).
\<close>

record playback_status =
  isLoaded :: bool
  positionMillis :: "real option"
  durationMillis :: "real option"
  shouldPlay :: bool

text \<open>Truthiness of a possibly absent number.\<close>

fun num_truthy :: "real option \<Rightarrow> bool" where
  "num_truthy None = False"
| "num_truthy (Some r) = (r \<noteq> 0)"

record player_state =
  status :: playback_status
  isPlaying :: bool
  isLoading :: bool
  showControls :: bool
  playbackRate :: real
  isMuted :: bool
  progressBarWidth :: real
  controlsOpacity :: real
  progressValue :: real
  videoRef :: bool

text \<open>
  The effects of a handler of the player screen: state setters, assignments to the two
  animated shared values, and commands to the media engine through \<open>videoRef.current\<close>
  (\<open>videoRef st\<close> tells whether the ref is attached).
\<close>

datatype player_event =
    SetStatus playback_status
  | SetIsLoading bool
  | SetIsPlaying bool
  | SetShowControls bool
  | SetPlaybackRate real
  | SetProgressBarWidth real
  | ControlsOpacity real
  | ProgressValue real
  | SetPositionAsync real
  | SetRateAsync real bool

fun apply_player :: "player_state \<Rightarrow> player_event \<Rightarrow> player_state" where
  "apply_player st (SetStatus s) = st\<lparr>status := s\<rparr>"
| "apply_player st (SetIsLoading b) = st\<lparr>isLoading := b\<rparr>"
| "apply_player st (SetIsPlaying b) = st\<lparr>isPlaying := b\<rparr>"
| "apply_player st (SetShowControls b) = st\<lparr>showControls := b\<rparr>"
| "apply_player st (SetPlaybackRate r) = st\<lparr>playbackRate := r\<rparr>"
| "apply_player st (SetProgressBarWidth w) = st\<lparr>progressBarWidth := w\<rparr>"
| "apply_player st (ControlsOpacity v) = st\<lparr>controlsOpacity := v\<rparr>"
| "apply_player st (ProgressValue v) = st\<lparr>progressValue := v\<rparr>"
| "apply_player st (SetPositionAsync p) = st"
| "apply_player st (SetRateAsync r pitch) = st"

definition player_initial :: player_state where
  "player_initial =
     \<lparr>status = \<lparr>isLoaded = False, positionMillis = None, durationMillis = None,
                 shouldPlay = False\<rparr>,
      isPlaying = True, isLoading = True, showControls = True, playbackRate = 1.0,
      isMuted = False, progressBarWidth = 0, controlsOpacity = 1, progressValue = 0,
      videoRef = True\<rparr>"

subsection \<open>Handlers\<close>

definition handleProgressBarLayout :: "real \<Rightarrow> player_event list" where
  "handleProgressBarLayout width = [SetProgressBarWidth width]"

text \<open>
  \<^verbatim>\<open>
  const seekTo = async (position: number) => {
      if (status.isLoaded && status.durationMillis) {
          const seekPosition = position * status.durationMillis;
          await videoRef.current?.setPositionAsync(seekPosition);
      }
  };
  \<close>
\<close>

definition seekTo :: "player_state \<Rightarrow> real \<Rightarrow> player_event list" where
  "seekTo st position =
     (case durationMillis (status st) of
        None \<Rightarrow> []
      | Some duration \<Rightarrow>
          if isLoaded (status st) \<and> duration \<noteq> 0
          then (let seekPosition = position * duration in
                if videoRef st then [SetPositionAsync seekPosition] else [])
          else [])"

text \<open>
  \<^verbatim>\<open>
  const handleSeek = async (event: GestureResponderEvent) => {
      if (!progressBarWidth || !status.isLoaded || !status.durationMillis) return;
      const touchX = event.nativeEvent.locationX;
      const seekRatio = Math.min(Math.max(touchX / progressBarWidth, 0), 1);
      await seekTo(seekRatio);
  };
  \<close>
\<close>

definition handleSeek :: "player_state \<Rightarrow> real \<Rightarrow> player_event list" where
  "handleSeek st locationX =
     (if progressBarWidth st = 0 \<or> \<not> isLoaded (status st)
         \<or> \<not> num_truthy (durationMillis (status st))
      then []
      else (let touchX = locationX;
                seekRatio = min (max (touchX / progressBarWidth st) 0) 1
            in seekTo st seekRatio))"

text \<open>
  \<^verbatim>\<open>
  const handleScreenTap = () => {
      if (isLoading) return;
      setShowControls(!showControls);
      controlsOpacity.value = withTiming(showControls ? 0 : 1, { duration: 300 });
  };
  const onPlaybackStatusUpdate = (playbackStatus: any) => {
      setStatus(playbackStatus);
      if (playbackStatus.isLoaded) {
          setIsLoading(false);
          setIsPlaying(!playbackStatus.shouldPlay ? false : true);
      }
  };
  \<close>
\<close>

definition handleScreenTap :: "player_state \<Rightarrow> player_event list" where
  "handleScreenTap st =
     (if isLoading st then []
      else [SetShowControls (\<not> showControls st),
            ControlsOpacity (if showControls st then 0 else 1)])"

definition onPlaybackStatusUpdate :: "playback_status \<Rightarrow> player_event list" where
  "onPlaybackStatusUpdate playbackStatus =
     SetStatus playbackStatus
     # (if isLoaded playbackStatus
        then [SetIsLoading False, SetIsPlaying (if \<not> shouldPlay playbackStatus then False else True)]
        else [])"

text \<open>
  \<^verbatim>\<open>
  const changePlaybackRate = async () => {
      const rates = [0.5, 0.75, 1.0, 1.25, 1.5, 2.0];
      const currentIndex = rates.indexOf(playbackRate);
      const nextRate = rates[(currentIndex + 1) % rates.length];
      setPlaybackRate(nextRate);
      if (videoRef.current && status.isLoaded) {
          await videoRef.current.setRateAsync(nextRate, true);
      }
  };
  \<close>
  \<open>indexOf\<close> is \<open>-1\<close> when the element is absent.
\<close>

fun indexOf :: "'a list \<Rightarrow> 'a \<Rightarrow> int" where
  "indexOf [] x = - 1"
| "indexOf (y # ys) x =
     (if y = x then 0 else (let i = indexOf ys x in if i < 0 then - 1 else i + 1))"

definition rates :: "real list" where
  "rates = [0.5, 0.75, 1.0, 1.25, 1.5, 2.0]"

definition nextRate :: "real \<Rightarrow> real" where
  "nextRate current =
     (let currentIndex = indexOf rates current
      in rates ! nat ((currentIndex + 1) smod int (length rates)))"

definition changePlaybackRate :: "player_state \<Rightarrow> player_event list" where
  "changePlaybackRate st =
     SetPlaybackRate (nextRate (playbackRate st))
     # (if videoRef st \<and> isLoaded (status st)
        then [SetRateAsync (nextRate (playbackRate st)) True]
        else [])"

subsection \<open>Time display\<close>

text \<open>
  \<^verbatim>\<open>
  const formatTime = (millis: number) => {
      const totalSeconds = Math.floor(millis / 1000);
      const minutes = Math.floor(totalSeconds / 60);
      const seconds = totalSeconds % 60;
      return `${minutes}:${seconds.toString().padStart(2, '0')}`;
  };
  \<close>
  \<open>%\<close> is the truncating remainder, whose sign follows the dividend (\<open>smod\<close>).
\<close>

definition formatTime :: "real \<Rightarrow> jsstring" where
  "formatTime millis =
     (let totalSeconds = \<lfloor>millis / 1000\<rfloor>;
          minutes = \<lfloor>real_of_int totalSeconds / 60\<rfloor>;
          seconds = totalSeconds smod 60
      in number_toString minutes @ lit '':'' @ padStart (number_toString seconds) 2 (lit ''0''))"

subsection \<open>Effects and timers\<close>

text \<open>
  React runs an effect after the first render and after every render in which one of its
  dependencies changed, the cleanup of its previous run first. The JavaScript timer queue
  holds the pending timers (handle, due time in ms); \<open>setTimeout\<close> appends one and returns
  a fresh handle, \<open>clearTimeout\<close> removes the timer of a handle and ignores \<open>undefined\<close>.
  The screen arms a timer in one place only, so a timer needs no callback of its own.
  Handlers run one at a time on the UI thread: a handler, the render it causes and the
  effects of that render are taken as one step, and time passes between steps. The clock
  counts milliseconds.
\<close>

record runtime =
  ui :: player_state
  hideDeps :: "bool \<times> bool"
  hideTimeout :: "nat option"
  progressDeps :: "real option \<times> real option"
  timers :: "(nat \<times> nat) list"
  nextHandle :: nat
  now :: nat
  fired :: "nat list"

definition setTimeout :: "runtime \<Rightarrow> nat \<Rightarrow> runtime \<times> nat" where
  "setTimeout rt delay =
     (rt\<lparr>timers := timers rt @ [(nextHandle rt, now rt + delay)],
         nextHandle := Suc (nextHandle rt)\<rparr>,
      nextHandle rt)"

definition clearTimeout :: "runtime \<Rightarrow> nat option \<Rightarrow> runtime" where
  "clearTimeout rt handle =
     (case handle of
        None \<Rightarrow> rt
      | Some h \<Rightarrow> rt\<lparr>timers := filter (\<lambda>tm. fst tm \<noteq> h) (timers rt)\<rparr>)"

text \<open>
  \<^verbatim>\<open>
  useEffect(() => {
      let timeout: number;
      if (showControls && !isLoading) {
          timeout = setTimeout(() => {
              setShowControls(false);
              controlsOpacity.value = withTiming(0, { duration: 300 });
          }, 3000);
      }
      return () => clearTimeout(timeout);
  }, [showControls, isLoading]);
  \<close>
  \<open>hideTimeout\<close> is the variable \<open>timeout\<close> that the cleanup of the last run closes over.
\<close>

definition controls_hide_effect :: "runtime \<Rightarrow> runtime" where
  "controls_hide_effect rt =
     (if showControls (ui rt) \<and> \<not> isLoading (ui rt)
      then (case setTimeout rt 3000 of (rt', timeout) \<Rightarrow> rt'\<lparr>hideTimeout := Some timeout\<rparr>)
      else rt\<lparr>hideTimeout := None\<rparr>)"

definition controls_hide_cleanup :: "runtime \<Rightarrow> runtime" where
  "controls_hide_cleanup rt = clearTimeout rt (hideTimeout rt)"

definition controls_hide_callback :: "player_event list" where
  "controls_hide_callback = [SetShowControls False, ControlsOpacity 0]"

text \<open>
  \<^verbatim>\<open>
  useEffect(() => {
      if (status.durationMillis && status.positionMillis) {
          progressValue.value = status.positionMillis / status.durationMillis;
      }
  }, [status.positionMillis, status.durationMillis]);
  \<close>
\<close>

definition progress_effect :: "player_state \<Rightarrow> player_event list" where
  "progress_effect st =
     (if num_truthy (durationMillis (status st)) \<and> num_truthy (positionMillis (status st))
      then (case (positionMillis (status st), durationMillis (status st)) of
              (Some p, Some d) \<Rightarrow> [ProgressValue (p / d)]
            | _ \<Rightarrow> [])
      else [])"

definition run_effects :: "runtime \<Rightarrow> runtime" where
  "run_effects rt =
     (let rt1 =
        (if (showControls (ui rt), isLoading (ui rt)) \<noteq> hideDeps rt
         then (controls_hide_effect (controls_hide_cleanup rt))
                \<lparr>hideDeps := (showControls (ui rt), isLoading (ui rt))\<rparr>
         else rt)
      in if (positionMillis (status (ui rt1)), durationMillis (status (ui rt1))) \<noteq> progressDeps rt1
         then rt1\<lparr>ui := foldl apply_player (ui rt1) (progress_effect (ui rt1)),
                  progressDeps := (positionMillis (status (ui rt1)), durationMillis (status (ui rt1)))\<rparr>
         else rt1)"

text \<open>The first render: every effect runs, no cleanup.\<close>

definition mount :: runtime where
  "mount =
     (let rt0 = \<lparr>ui = player_initial, hideDeps = (True, True), hideTimeout = None,
                 progressDeps = (None, None), timers = [], nextHandle = 0, now = 0,
                 fired = []\<rparr>;
          rt1 = controls_hide_effect rt0
      in rt1\<lparr>ui := foldl apply_player (ui rt1) (progress_effect (ui rt1))\<rparr>)"

text \<open>A handler ran: its setters are applied, the screen renders, the effects run.\<close>

definition dispatch :: "runtime \<Rightarrow> player_event list \<Rightarrow> runtime" where
  "dispatch rt es = run_effects (rt\<lparr>ui := foldl apply_player (ui rt) es\<rparr>)"

text \<open>
  A timer fires: it leaves the queue, the clock stands at its due time (or later), its
  callback runs. Time passes up to \<open>t\<close>: the pending timers due by then fire, the earliest
  first.
\<close>

definition fire :: "runtime \<Rightarrow> nat \<times> nat \<Rightarrow> runtime" where
  "fire rt tm =
     dispatch (rt\<lparr>timers := filter (\<lambda>x. fst x \<noteq> fst tm) (timers rt),
                  now := max (now rt) (snd tm),
                  fired := fired rt @ [fst tm]\<rparr>)
       controls_hide_callback"

fun earliest :: "(nat \<times> nat) list \<Rightarrow> (nat \<times> nat) option" where
  "earliest [] = None"
| "earliest (x # xs) =
     (case earliest xs of
        None \<Rightarrow> Some x
      | Some y \<Rightarrow> if snd x \<le> snd y then Some x else Some y)"

definition next_due :: "nat \<Rightarrow> runtime \<Rightarrow> (nat \<times> nat) option" where
  "next_due t rt = earliest (filter (\<lambda>tm. snd tm \<le> t) (timers rt))"

lemma earliest_mem: "earliest xs = Some x \<Longrightarrow> x \<in> set xs"
  by (induction xs arbitrary: x) (auto split: option.splits if_splits)

lemma next_due_mem: "next_due t rt = Some tm \<Longrightarrow> tm \<in> set (timers rt) \<and> snd tm \<le> t"
  using earliest_mem [of "filter (\<lambda>tm. snd tm \<le> t) (timers rt)" tm]
  by (simp add: next_due_def)

lemma run_effects_hidden_timers:
  "\<not> showControls (ui rt) \<Longrightarrow> length (timers (run_effects rt)) \<le> length (timers rt)"
  by (simp add: run_effects_def Let_def controls_hide_effect_def controls_hide_cleanup_def
      clearTimeout_def split: option.splits)

lemma fire_timers_less:
  assumes "tm \<in> set (timers rt)"
  shows "length (timers (fire rt tm)) < length (timers rt)"
proof -
  let ?rt = "rt\<lparr>timers := filter (\<lambda>x. fst x \<noteq> fst tm) (timers rt),
                 now := max (now rt) (snd tm), fired := fired rt @ [fst tm],
                 ui := foldl apply_player (ui rt) controls_hide_callback\<rparr>"
  have "\<not> showControls (ui ?rt)" by (simp add: controls_hide_callback_def)
  then have "length (timers (run_effects ?rt)) \<le> length (timers ?rt)"
    by (rule run_effects_hidden_timers)
  moreover have "length (timers ?rt) < length (timers rt)"
    using assms by (simp add: length_filter_less)
  moreover have "fire rt tm = run_effects ?rt"
    by (simp add: fire_def dispatch_def)
  ultimately show ?thesis by simp
qed

function advance :: "nat \<Rightarrow> runtime \<Rightarrow> runtime" where
  "advance t rt =
     (case next_due t rt of
        None \<Rightarrow> rt\<lparr>now := max (now rt) t\<rparr>
      | Some tm \<Rightarrow> advance t (fire rt tm))"
  by pat_completeness auto

termination
  by (relation "measure (\<lambda>(t, rt). length (timers rt))")
    (auto dest: next_due_mem intro: fire_timers_less)

declare advance.simps [simp del]

datatype player_input =
    StatusUpdate playback_status
  | ScreenTap
  | SeekTap real
  | RateTap
  | Layout real
  | Elapse nat

fun step :: "runtime \<Rightarrow> player_input \<Rightarrow> runtime" where
  "step rt (StatusUpdate playbackStatus) = dispatch rt (onPlaybackStatusUpdate playbackStatus)"
| "step rt ScreenTap = dispatch rt (handleScreenTap (ui rt))"
| "step rt (SeekTap locationX) = dispatch rt (handleSeek (ui rt) locationX)"
| "step rt RateTap = dispatch rt (changePlaybackRate (ui rt))"
| "step rt (Layout width) = dispatch rt (handleProgressBarLayout width)"
| "step rt (Elapse d) = advance (now rt + d) rt"

definition run :: "runtime \<Rightarrow> player_input list \<Rightarrow> runtime" where
  "run rt inputs = foldl step rt inputs"

subsection \<open>The invariant of the hide timer\<close>

text \<open>
  The invariant of the hide timer: the queue holds exactly the timer armed by the last run
  of the effect, and that only while the controls are visible and the player has loaded.
\<close>

definition visible :: "runtime \<Rightarrow> bool" where
  "visible rt = (showControls (ui rt) \<and> \<not> isLoading (ui rt))"

definition hide_inv :: "runtime \<Rightarrow> bool" where
  "hide_inv rt =
     (hideDeps rt = (showControls (ui rt), isLoading (ui rt))
      \<and> (if visible rt
         then \<exists>h due. timers rt = [(h, due)] \<and> hideTimeout rt = Some h
                \<and> now rt < due \<and> due \<le> now rt + 3000
         else timers rt = [] \<and> hideTimeout rt = None))"

section \<open>Concrete scenarios\<close>

text \<open>
  A service that answers every call successfully, one whose file transfer answers 500, one
  that is unreachable, one that resolves a playback URL under the second field name; the
  upload dialog filled in with the title \<open>Demo\<close>; a loaded player with a seek track 200
  pixels wide; a run of the player in which the hide timer is armed twice.
\<close>

definition demo_remote :: remote where
  "demo_remote req =
     (case req of
        Fetch url method body \<Rightarrow>
          Inr \<lparr>ok = True, http_status = 200, statusText = lit ''OK'',
               json = Some (Obj [(lit ''filename'', Str (lit ''k1.mp4'')),
                                 (lit ''url'', Str (lit ''https://s3/k1'')),
                                 (lit ''video_id'', Str (lit ''7'')),
                                 (lit ''videos'', Arr [Obj [(lit ''id'', Str (lit ''7''))]])])\<rparr>
      | UploadAsync url file \<Rightarrow>
          Inr \<lparr>ok = True, http_status = 200, statusText = lit ''OK'', json = None\<rparr>)"

definition transfer_500 :: remote where
  "transfer_500 req =
     (case req of
        Fetch url method body \<Rightarrow> demo_remote req
      | UploadAsync url file \<Rightarrow>
          Inr \<lparr>ok = False, http_status = 500, statusText = lit ''Internal Server Error'',
               json = None\<rparr>)"

definition offline :: remote where
  "offline req = Inl (Rejected (lit ''Network request failed''))"

definition demo_state :: home_state where
  "demo_state =
     home_initial\<lparr>loading := False, showUploadModal := True, uploadTitle := lit ''Demo'',
                  selectedVideo := Some (lit ''file:///v.mp4'')\<rparr>"

definition playback_remote :: remote where
  "playback_remote req =
     Inr \<lparr>ok = True, http_status = 200, statusText = lit ''OK'',
          json = Some (Obj [(lit ''url'', Str []),
                            (lit ''playback_url'', Str (lit ''https://cdn/7.m3u8''))])\<rparr>"

definition loaded_status :: "real \<Rightarrow> real \<Rightarrow> playback_status" where
  "loaded_status position duration =
     \<lparr>isLoaded = True, positionMillis = Some position, durationMillis = Some duration,
      shouldPlay = True\<rparr>"

definition demo_player :: player_state where
  "demo_player =
     player_initial\<lparr>status := loaded_status 75000 150000, isLoading := False,
                     progressBarWidth := 200\<rparr>"

definition two_arms :: "player_input list" where
  "two_arms =
     [StatusUpdate (loaded_status 0 150000), Elapse 100, ScreenTap, Elapse 100, ScreenTap,
      Elapse 10000]"

section \<open>Properties of the time display\<close>

lemma digits_small: "n < 10 \<Longrightarrow> digits n = [of_nat (48 + n)]"
  by (simp add: digits.simps)

lemma digits_two:
  "10 \<le> n \<Longrightarrow> n < 100 \<Longrightarrow> digits n = [of_nat (48 + n div 10), of_nat (48 + n mod 10)]"
  by (subst digits.simps) (simp add: digits_small)

lemma padStart_seconds:
  assumes "s < 60"
  shows "padStart (digits s) 2 (lit ''0'') = [of_nat (48 + s div 10), of_nat (48 + s mod 10)]"
proof (cases "s < 10")
  case True
  then show ?thesis by (simp add: digits_small padStart_def lit_def)
next
  case False
  with assms have "digits s = [of_nat (48 + s div 10), of_nat (48 + s mod 10)]"
    by (intro digits_two) simp_all
  then show ?thesis by (simp add: padStart_def)
qed

lemma formatTime_nonneg:
  assumes "0 \<le> millis"
  shows "formatTime millis =
           digits (nat \<lfloor>millis / 1000\<rfloor> div 60) @ lit '':'' @
           [of_nat (48 + nat \<lfloor>millis / 1000\<rfloor> mod 60 div 10),
            of_nat (48 + nat \<lfloor>millis / 1000\<rfloor> mod 60 mod 10)]"
proof -
  define t where "t = nat \<lfloor>millis / 1000\<rfloor>"
  have "0 \<le> \<lfloor>millis / 1000\<rfloor>" using assms by simp
  then have ti: "\<lfloor>millis / 1000\<rfloor> = int t" by (simp add: t_def)
  have m: "\<lfloor>real_of_int (int t) / 60\<rfloor> = int (t div 60)"
    using floor_divide_of_nat_eq [of t 60, where ?'a = real] by simp
  have s: "int t smod 60 = int (t mod 60)"
    by (simp add: signed_modulo_int_def zmod_int sgn_if)
  have "t mod 60 < 60" by simp
  then have p: "padStart (digits (t mod 60)) 2 (lit ''0'') =
      [of_nat (48 + t mod 60 div 10), of_nat (48 + t mod 60 mod 10)]"
    by (rule padStart_seconds)
  show ?thesis
    unfolding formatTime_def Let_def ti m s number_toString_def t_def [symmetric]
    using p by simp
qed

text \<open>
  C7. For every non-negative millisecond value \<open>formatTime\<close> returns the decimal digits of
  the total minutes (the whole seconds divided by 60, not reduced modulo 60: there is no
  hour component), a colon, and the remaining seconds as exactly two decimal digits, the
  first of them \<open>0\<close> below ten seconds. 75000 ms is \<open>1:15\<close>, 150000 ms is \<open>2:30\<close>, and one
  hour is \<open>60:00\<close>.
\<close>

theorem formatTime_minutes_seconds:
  "0 \<le> millis \<Longrightarrow>
     formatTime millis =
       digits (nat \<lfloor>millis / 1000\<rfloor> div 60) @ lit '':'' @
       [of_nat (48 + nat \<lfloor>millis / 1000\<rfloor> mod 60 div 10),
        of_nat (48 + nat \<lfloor>millis / 1000\<rfloor> mod 60 mod 10)]
     \<and> formatTime 75000 = lit ''1:15''
     \<and> formatTime 150000 = lit ''2:30''
     \<and> formatTime 3600000 = lit ''60:00''"
proof (intro conjI)
  assume "0 \<le> millis"
  then show "formatTime millis =
       digits (nat \<lfloor>millis / 1000\<rfloor> div 60) @ lit '':'' @
       [of_nat (48 + nat \<lfloor>millis / 1000\<rfloor> mod 60 div 10),
        of_nat (48 + nat \<lfloor>millis / 1000\<rfloor> mod 60 mod 10)]"
    by (rule formatTime_nonneg)
next
  show "formatTime 75000 = lit ''1:15''"
    by (simp add: formatTime_def number_toString_def padStart_def lit_def digits.simps
        signed_modulo_int_def)
next
  show "formatTime 150000 = lit ''2:30''"
    by (simp add: formatTime_def number_toString_def padStart_def lit_def digits.simps
        signed_modulo_int_def)
next
  show "formatTime 3600000 = lit ''60:00''"
    by (simp add: formatTime_def number_toString_def padStart_def lit_def digits.simps
        signed_modulo_int_def)
qed

theorem formatTime_minutes_seconds_witness:
  "(0::real) \<le> 61500 \<and> formatTime 61500 = lit ''1:01''"
  using formatTime_minutes_seconds [of 61500]
  by (simp add: lit_def digits.simps)

section \<open>Properties of the upload pipeline\<close>

lemma requests_append [simp]: "requests (xs @ ys) = requests xs @ requests ys"
  by (induction xs rule: requests.induct) simp_all

lemma progress_values_append [simp]:
  "progress_values (xs @ ys) = progress_values xs @ progress_values ys"
  by (induction xs rule: progress_values.induct) simp_all

lemma alerts_append [simp]: "alerts (xs @ ys) = alerts xs @ alerts ys"
  by (induction xs rule: alerts.induct) simp_all

lemma run_events_append [simp]: "run_events st (xs @ ys) = run_events (run_events st xs) ys"
  by (simp add: run_events_def)

lemma run_events_Nil [simp]: "run_events st [] = st"
  by (simp add: run_events_def)

lemma run_events_Cons [simp]: "run_events st (e # es) = run_events (apply_event st e) es"
  by (simp add: run_events_def)

lemma and_then_Inl [simp]: "and_then (t, Inl e) f = (t, Inl e)"
  by (simp add: and_then_def)

lemma and_then_Inr [simp]: "and_then (t, Inr x) f = (t @ fst (f x), snd (f x))"
  by (simp add: and_then_def split: prod.splits)

lemma and_then_emit [simp]: "and_then (emit es) f = (es @ fst (f ()), snd (f ()))"
  by (simp add: emit_def)

lemma and_then_lift_Inl [simp]: "and_then (lift (Inl e)) f = ([], Inl e)"
  by (simp add: lift_def)

lemma and_then_lift_Inr [simp]: "and_then (lift (Inr x)) f = f x"
  by (simp add: lift_def)

lemma getUploadURL_trace: "fst (getUploadURL net) = [Request acquire_request]"
  by (simp add: getUploadURL_def acquire_request_def Let_def)

lemma uploadVideoFile_trace: "fst (uploadVideoFile net u f) = [Request (UploadAsync u f)]"
  by (simp add: uploadVideoFile_def Let_def)

lemma createVideoMetadata_trace:
  "fst (createVideoMetadata net t fn) = [Request (commit_request t fn)]"
  by (simp add: createVideoMetadata_def commit_request_def Let_def)

lemma getReadyVideos_trace: "fst (getReadyVideos net) = [Request ready_request]"
  by (simp add: getReadyVideos_def ready_request_def Let_def)

lemma deleteVideo_trace: "fst (deleteVideo net vid) = [Request (delete_request vid)]"
  by (simp add: deleteVideo_def delete_request_def Let_def)

lemma async_eq: "m = (fst m, snd m)"
  by simp

lemma get_prop_total: "get_prop v a = Inr x \<Longrightarrow> \<exists>y. get_prop v b = Inr y"
  by (cases v) simp_all

text \<open>The six ways the body of the \<open>try\<close> block can end.\<close>

lemma upload_body_cases:
  obtains
    (acquire) e where "snd (getUploadURL net) = Inl e"
      "upload_body net st file = ([SetUploadProgress 20, Request acquire_request], Inl e)"
  | (nodata) d e where "snd (getUploadURL net) = Inr d" "get_prop d (lit ''url'') = Inl e"
      "upload_body net st file =
         ([SetUploadProgress 20, Request acquire_request, SetUploadProgress 40], Inl e)"
  | (transfer) d u e where "snd (getUploadURL net) = Inr d" "get_prop d (lit ''url'') = Inr u"
      "snd (uploadVideoFile net u file) = Inl e"
      "upload_body net st file =
         ([SetUploadProgress 20, Request acquire_request, SetUploadProgress 40,
           Request (UploadAsync u file)], Inl e)"
  | (commit) d u fn e where "snd (getUploadURL net) = Inr d" "get_prop d (lit ''url'') = Inr u"
      "snd (uploadVideoFile net u file) = Inr ()" "get_prop d (lit ''filename'') = Inr fn"
      "snd (createVideoMetadata net (trim (uploadTitle st)) fn) = Inl e"
      "upload_body net st file =
         ([SetUploadProgress 20, Request acquire_request, SetUploadProgress 40,
           Request (UploadAsync u file), SetUploadProgress 80,
           Request (commit_request (trim (uploadTitle st)) fn)], Inl e)"
  | (committed) d u fn where "snd (getUploadURL net) = Inr d" "get_prop d (lit ''url'') = Inr u"
      "snd (uploadVideoFile net u file) = Inr ()" "get_prop d (lit ''filename'') = Inr fn"
      "snd (createVideoMetadata net (trim (uploadTitle st)) fn) = Inr ()"
      "upload_body net st file =
         ([SetUploadProgress 20, Request acquire_request, SetUploadProgress 40,
           Request (UploadAsync u file), SetUploadProgress 80,
           Request (commit_request (trim (uploadTitle st)) fn),
           SetUploadProgress 100, SetUploadTitle [], SetSelectedVideo None,
           SetShowUploadModal False,
           Alert (lit ''Success'') (lit ''Video uploaded successfully!''),
           SetLoading True, Request ready_request], Inr ())"
proof -
  have g: "getUploadURL net = ([Request acquire_request], snd (getUploadURL net))"
    using getUploadURL_trace [of net] by (metis async_eq)
  have u: "\<And>x. uploadVideoFile net x file = ([Request (UploadAsync x file)], snd (uploadVideoFile net x file))"
    using uploadVideoFile_trace by (metis async_eq)
  have c: "\<And>t fn. createVideoMetadata net t fn = ([Request (commit_request t fn)], snd (createVideoMetadata net t fn))"
    using createVideoMetadata_trace by (metis async_eq)
  show ?thesis
  proof (cases "snd (getUploadURL net)")
    case (Inl e)
    with g have "getUploadURL net = ([Request acquire_request], Inl e)" by simp
    then have "upload_body net st file = ([SetUploadProgress 20, Request acquire_request], Inl e)"
      by (simp add: upload_body_def)
    with Inl show ?thesis by (rule acquire)
  next
    case (Inr d)
    with g have gd: "getUploadURL net = ([Request acquire_request], Inr d)" by simp
    show ?thesis
    proof (cases "get_prop d (lit ''url'')")
      case (Inl e)
      with gd have "upload_body net st file =
         ([SetUploadProgress 20, Request acquire_request, SetUploadProgress 40], Inl e)"
        by (simp add: upload_body_def)
      with \<open>snd (getUploadURL net) = Inr d\<close> Inl show ?thesis by (rule nodata)
    next
      case pu: (Inr url)
      then obtain fn where pf: "get_prop d (lit ''filename'') = Inr fn"
        using get_prop_total by blast
      show ?thesis
      proof (cases "snd (uploadVideoFile net url file)")
        case (Inl e)
        with u [of url] have "uploadVideoFile net url file = ([Request (UploadAsync url file)], Inl e)"
          by simp
        with gd pu have "upload_body net st file =
           ([SetUploadProgress 20, Request acquire_request, SetUploadProgress 40,
             Request (UploadAsync url file)], Inl e)"
          by (simp add: upload_body_def)
        with \<open>snd (getUploadURL net) = Inr d\<close> pu Inl show ?thesis by (rule transfer)
      next
        case ru: (Inr x)
        with u [of url] have uu: "uploadVideoFile net url file = ([Request (UploadAsync url file)], Inr ())"
          by simp
        from ru have ru': "snd (uploadVideoFile net url file) = Inr ()" by simp
        show ?thesis
        proof (cases "snd (createVideoMetadata net (trim (uploadTitle st)) fn)")
          case (Inl e)
          with c [of "trim (uploadTitle st)" fn]
          have "createVideoMetadata net (trim (uploadTitle st)) fn =
                  ([Request (commit_request (trim (uploadTitle st)) fn)], Inl e)" by simp
          with gd pu pf uu have "upload_body net st file =
             ([SetUploadProgress 20, Request acquire_request, SetUploadProgress 40,
               Request (UploadAsync url file), SetUploadProgress 80,
               Request (commit_request (trim (uploadTitle st)) fn)], Inl e)"
            by (simp add: upload_body_def)
          with \<open>snd (getUploadURL net) = Inr d\<close> pu ru' pf Inl show ?thesis by (rule commit)
        next
          case rc: (Inr y)
          with c [of "trim (uploadTitle st)" fn]
          have "createVideoMetadata net (trim (uploadTitle st)) fn =
                  ([Request (commit_request (trim (uploadTitle st)) fn)], Inr ())" by simp
          with gd pu pf uu have "upload_body net st file =
             ([SetUploadProgress 20, Request acquire_request, SetUploadProgress 40,
               Request (UploadAsync url file), SetUploadProgress 80,
               Request (commit_request (trim (uploadTitle st)) fn),
               SetUploadProgress 100, SetUploadTitle [], SetSelectedVideo None,
               SetShowUploadModal False,
               Alert (lit ''Success'') (lit ''Video uploaded successfully!''),
               SetLoading True, Request ready_request], Inr ())"
            by (simp add: upload_body_def emit_def loadVideos_begin_def getReadyVideos_trace)
          moreover from rc have "snd (createVideoMetadata net (trim (uploadTitle st)) fn) = Inr ()"
            by simp
          ultimately show ?thesis
            using \<open>snd (getUploadURL net) = Inr d\<close> pu ru' pf by (intro committed)
        qed
      qed
    qed
  qed
qed

lemmas demo_defs =
  demo_remote_def transfer_500_def offline_def demo_state_def home_initial_def
  handleUpload_def upload_body_def and_then_def emit_def lift_def
  getUploadURL_def uploadVideoFile_def createVideoMetadata_def getReadyVideos_def
  deleteVideo_def getPlaybackURL_def handleDeleteVideo_def
  loadVideos_def loadVideos_begin_def loadVideos_end_def
  acquire_request_def commit_request_def ready_request_def delete_request_def
  playback_request_def API_BASE_URL_def
  trim_def is_whitespace_def lit_def number_toString_def

lemma loadVideos_end_requests [simp]: "requests (loadVideos_end net) = []"
  by (simp add: loadVideos_end_def split: sum.splits)

lemma loadVideos_end_progress [simp]: "progress_values (loadVideos_end net) = []"
  by (simp add: loadVideos_end_def split: sum.splits)

lemma loadVideos_end_upload_state:
  "uploadProgress (run_events st (loadVideos_end net)) = uploadProgress st \<and>
   uploading (run_events st (loadVideos_end net)) = uploading st"
  by (simp add: loadVideos_end_def split: sum.splits)

lemma handleUpload_valid:
  assumes "selectedVideo st = Some file" "file \<noteq> []" "trim (uploadTitle st) \<noteq> []"
  shows "handleUpload net st =
           (case upload_body net st file of
              (t, Inr _) \<Rightarrow>
                [SetUploading True, SetUploadProgress 0] @ t
                @ [SetUploading False, SetUploadProgress 0]
                @ loadVideos_end net
            | (t, Inl error) \<Rightarrow>
                [SetUploading True, SetUploadProgress 0] @ t
                @ [ConsoleError (lit ''Upload failed:'') error,
                   Alert (lit ''Error'') (lit ''Failed to upload video. Please try again.'')]
                @ [SetUploading False, SetUploadProgress 0])"
  using assms by (simp add: handleUpload_def split: prod.splits sum.splits)

lemma handleUpload_invalid:
  assumes "selectedVideo st = None \<or> selectedVideo st = Some [] \<or> trim (uploadTitle st) = []"
  shows "handleUpload net st =
           [Alert (lit ''Error'') (lit ''Please select a video and enter a title.'')]"
  using assms by (auto simp: handleUpload_def split: option.splits)

lemma acquire_not_commit [simp]: "\<not> is_commit acquire_request"
  by (simp add: acquire_request_def lit_def)

lemma ready_not_commit [simp]: "\<not> is_commit ready_request"
  by (simp add: ready_request_def lit_def)

lemma commit_is_commit [simp]: "is_commit (commit_request t fn)"
  by (simp add: commit_request_def)

text \<open>The requests of one upload attempt, in the five ways it can go.\<close>

lemma handleUpload_requests_cases:
  obtains
    (rejected) "requests (handleUpload net st) = []"
  | (acquire) "isl (snd (getUploadURL net)) \<or> (\<exists>d. snd (getUploadURL net) = Inr d \<and> isl (get_prop d (lit ''url'')))"
      "requests (handleUpload net st) = [acquire_request]"
  | (transfer) d u fl where
      "snd (getUploadURL net) = Inr d" "isl (snd (uploadVideoFile net u fl))"
      "requests (handleUpload net st) = [acquire_request, UploadAsync u fl]"
  | (commit) d u fl t fn where
      "snd (getUploadURL net) = Inr d" "snd (uploadVideoFile net u fl) = Inr ()"
      "isl (snd (createVideoMetadata net t fn))"
      "requests (handleUpload net st) = [acquire_request, UploadAsync u fl, commit_request t fn]"
  | (committed) d u fl t fn where
      "snd (getUploadURL net) = Inr d" "snd (uploadVideoFile net u fl) = Inr ()"
      "snd (createVideoMetadata net t fn) = Inr ()"
      "requests (handleUpload net st) =
         [acquire_request, UploadAsync u fl, commit_request t fn, ready_request]"
proof (cases "selectedVideo st = None \<or> selectedVideo st = Some [] \<or> trim (uploadTitle st) = []")
  case True
  then have "requests (handleUpload net st) = []"
    by (simp add: handleUpload_invalid)
  then show ?thesis by (rule rejected)
next
  case False
  then obtain fl where v: "selectedVideo st = Some fl" "fl \<noteq> []" "trim (uploadTitle st) \<noteq> []"
    by auto
  note h = handleUpload_valid [OF v, of net]
  show ?thesis
  proof (cases rule: upload_body_cases [of net st fl])
    case (acquire e)
    then have "requests (handleUpload net st) = [acquire_request]" by (simp add: h)
    moreover from acquire have "isl (snd (getUploadURL net))" by simp
    ultimately show ?thesis using that(2) by blast
  next
    case (nodata d e)
    then have "requests (handleUpload net st) = [acquire_request]" by (simp add: h)
    moreover from nodata have "\<exists>d. snd (getUploadURL net) = Inr d \<and> isl (get_prop d (lit ''url''))"
      by simp
    ultimately show ?thesis using that(2) by blast
  next
    case (transfer d u e)
    then have "requests (handleUpload net st) = [acquire_request, UploadAsync u fl]"
      by (simp add: h)
    moreover from transfer have "isl (snd (uploadVideoFile net u fl))" by simp
    ultimately show ?thesis using transfer(1) that(3) by blast
  next
    case (commit d u fn e)
    then have "requests (handleUpload net st) =
        [acquire_request, UploadAsync u fl, commit_request (trim (uploadTitle st)) fn]"
      by (simp add: h)
    moreover from commit have "isl (snd (createVideoMetadata net (trim (uploadTitle st)) fn))"
      by simp
    ultimately show ?thesis using commit(1,3) that(4) by blast
  next
    case (committed d u fn)
    then have "requests (handleUpload net st) =
        [acquire_request, UploadAsync u fl, commit_request (trim (uploadTitle st)) fn,
         ready_request]"
      by (simp add: h)
    then show ?thesis using committed(1,3,5) that(5) by blast
  qed
qed

text \<open>
  C2. In every execution of \<open>handleUpload\<close>, whatever the service answers: if the file
  transfer that was requested fails (a rejection, or any status other than 200, such as
  500), no commit request is made; the requests made are an initial segment of
  acquire, transfer, commit, refresh, so no phase is skipped or reordered; a transfer is
  requested only after the acquisition succeeded, and a commit only after the transfer
  succeeded.
\<close>

theorem upload_phases_in_order:
  "(\<forall>u f. UploadAsync u f \<in> set (requests (handleUpload net st))
            \<and> isl (snd (uploadVideoFile net u f))
          \<longrightarrow> (\<forall>r \<in> set (requests (handleUpload net st)). \<not> is_commit r))
   \<and> (\<exists>u f t fn. prefix (requests (handleUpload net st))
                     [acquire_request, UploadAsync u f, commit_request t fn, ready_request])
   \<and> (\<forall>u f. UploadAsync u f \<in> set (requests (handleUpload net st))
          \<longrightarrow> \<not> isl (snd (getUploadURL net)))
   \<and> (\<forall>r \<in> set (requests (handleUpload net st)). is_commit r
          \<longrightarrow> (\<exists>u f. UploadAsync u f \<in> set (requests (handleUpload net st))
                   \<and> snd (uploadVideoFile net u f) = Inr ()))"
proof (cases rule: handleUpload_requests_cases [of net st])
  case rejected
  then show ?thesis by simp
next
  case acquire
  have "prefix [acquire_request]
          [acquire_request, UploadAsync Undefined [], commit_request [] Undefined, ready_request]"
    by simp
  then have "\<exists>u f t fn. prefix [acquire_request]
          [acquire_request, UploadAsync u f, commit_request t fn, ready_request]"
    by blast
  with acquire(2) show ?thesis by (simp add: acquire_request_def lit_def)
next
  case (transfer d u fl)
  have "prefix [acquire_request, UploadAsync u fl]
          [acquire_request, UploadAsync u fl, commit_request [] Undefined, ready_request]"
    by simp
  then have "\<exists>u' f t fn. prefix [acquire_request, UploadAsync u fl]
          [acquire_request, UploadAsync u' f, commit_request t fn, ready_request]"
    by blast
  with transfer show ?thesis by (auto simp: acquire_request_def lit_def)
next
  case (commit d u fl t fn)
  have "prefix [acquire_request, UploadAsync u fl, commit_request t fn]
          [acquire_request, UploadAsync u fl, commit_request t fn, ready_request]"
    by simp
  then have "\<exists>u' f t' fn'. prefix [acquire_request, UploadAsync u fl, commit_request t fn]
          [acquire_request, UploadAsync u' f, commit_request t' fn', ready_request]"
    by blast
  with commit show ?thesis by (auto simp: acquire_request_def commit_request_def lit_def)
next
  case (committed d u fl t fn)
  have "\<exists>u' f t' fn'. prefix [acquire_request, UploadAsync u fl, commit_request t fn, ready_request]
          [acquire_request, UploadAsync u' f, commit_request t' fn', ready_request]"
    by blast
  with committed show ?thesis
    by (auto simp: acquire_request_def commit_request_def ready_request_def lit_def)
qed

lemma set_videos_append [simp]: "set_videos (xs @ ys) = set_videos xs @ set_videos ys"
  by (induction xs rule: set_videos.induct) simp_all

lemma no_set_videos_keeps:
  "set_videos es = [] \<Longrightarrow> videos (run_events st es) = videos st"
proof (induction es arbitrary: st)
  case Nil
  then show ?case by simp
next
  case (Cons e es)
  then show ?case by (cases e) simp_all
qed

theorem upload_phases_in_order_witness:
  "UploadAsync (Str (lit ''https://s3/k1'')) (lit ''file:///v.mp4'')
     \<in> set (requests (handleUpload transfer_500 demo_state))
   \<and> isl (snd (uploadVideoFile transfer_500 (Str (lit ''https://s3/k1'')) (lit ''file:///v.mp4'')))
   \<and> filter is_commit (requests (handleUpload transfer_500 demo_state)) = []
   \<and> length (requests (handleUpload transfer_500 demo_state)) = 2"
proof -
  have a: "requests (handleUpload transfer_500 demo_state) =
             [acquire_request, UploadAsync (Str (lit ''https://s3/k1'')) (lit ''file:///v.mp4'')]"
    by (simp add: demo_defs)
  have b: "isl (snd (uploadVideoFile transfer_500 (Str (lit ''https://s3/k1''))
                       (lit ''file:///v.mp4'')))"
    by (simp add: demo_defs)
  have m: "UploadAsync (Str (lit ''https://s3/k1'')) (lit ''file:///v.mp4'')
             \<in> set (requests (handleUpload transfer_500 demo_state))"
    by (simp add: a)
  from upload_phases_in_order [of transfer_500 demo_state] m b
  have "\<forall>r \<in> set (requests (handleUpload transfer_500 demo_state)). \<not> is_commit r"
    by blast
  then have "filter is_commit (requests (handleUpload transfer_500 demo_state)) = []"
    by (simp add: filter_empty_conv)
  with m b a show ?thesis by simp
qed

text \<open>
  C3. When no file is selected (\<open>null\<close> or the empty string) or the title is empty after
  trimming, \<open>handleUpload\<close> only shows the validation alert: it makes no request and
  calls no setter, so the state (progress and uploading flag included) is unchanged.
\<close>

theorem handleUpload_rejects_invalid:
  "selectedVideo st = None \<or> selectedVideo st = Some [] \<or> trim (uploadTitle st) = [] \<Longrightarrow>
     handleUpload net st =
       [Alert (lit ''Error'') (lit ''Please select a video and enter a title.'')]
     \<and> requests (handleUpload net st) = []
     \<and> run_events st (handleUpload net st) = st"
  by (simp add: handleUpload_invalid)

theorem handleUpload_rejects_invalid_witness:
  "trim (uploadTitle (demo_state\<lparr>uploadTitle := lit ''  ''\<rparr>)) = []
   \<and> selectedVideo (demo_state\<lparr>uploadTitle := lit ''  ''\<rparr>) = Some (lit ''file:///v.mp4'')
   \<and> requests (handleUpload demo_remote (demo_state\<lparr>uploadTitle := lit ''  ''\<rparr>)) = []
   \<and> run_events (demo_state\<lparr>uploadTitle := lit ''  ''\<rparr>)
        (handleUpload demo_remote (demo_state\<lparr>uploadTitle := lit ''  ''\<rparr>))
      = demo_state\<lparr>uploadTitle := lit ''  ''\<rparr>"
proof -
  have t: "trim (uploadTitle (demo_state\<lparr>uploadTitle := lit ''  ''\<rparr>)) = []"
    by (simp add: trim_def is_whitespace_def lit_def)
  have s: "selectedVideo (demo_state\<lparr>uploadTitle := lit ''  ''\<rparr>) = Some (lit ''file:///v.mp4'')"
    by (simp add: demo_state_def)
  from t have "selectedVideo (demo_state\<lparr>uploadTitle := lit ''  ''\<rparr>) = None
      \<or> selectedVideo (demo_state\<lparr>uploadTitle := lit ''  ''\<rparr>) = Some []
      \<or> trim (uploadTitle (demo_state\<lparr>uploadTitle := lit ''  ''\<rparr>)) = []"
    by blast
  from handleUpload_rejects_invalid [OF this, of demo_remote] t s
  show ?thesis by blast
qed

text \<open>
  The progress values of C1 as stated do not hold on the code. With the title \<open>Demo\<close>, a
  selected file and a service that answers every call successfully, the values written are
  0, 20, 40, 80, 100 and then 0: the \<open>finally\<close> block resets the progress after the
  success path as well. The sequence is not non-decreasing and it ends at 0, not at 100.
\<close>

theorem handleUpload_progress_counterexample:
  "selectedVideo demo_state = Some (lit ''file:///v.mp4'')
   \<and> trim (uploadTitle demo_state) = lit ''Demo''
   \<and> progress_values (handleUpload demo_remote demo_state) = [0, 20, 40, 80, 100, 0]
   \<and> \<not> sorted (progress_values (handleUpload demo_remote demo_state))
   \<and> uploadProgress (run_events demo_state (handleUpload demo_remote demo_state)) = 0
   \<and> uploadProgress (run_events demo_state (handleUpload demo_remote demo_state)) \<noteq> 100"
  by (simp add: demo_defs)

text \<open>
  C1, amended. For a selected (non-empty) local file and a title that is non-empty after
  trimming, when the three remote calls succeed, \<open>handleUpload\<close> writes the progress
  values 0, 20, 40, 80, 100 in that order, a non-decreasing sequence, followed by the reset
  to 0 of its \<open>finally\<close> block. It makes exactly one request each to acquire the
  target, transfer the file and commit the metadata, in that order, and then refreshes the
  catalog. The attempt ends with progress 0 and the uploading flag cleared.
\<close>

theorem handleUpload_success_progress:
  assumes "selectedVideo st = Some fl" and "fl \<noteq> []" and "trim (uploadTitle st) \<noteq> []"
    and "snd (getUploadURL net) = Inr d"
    and "get_prop d (lit ''url'') = Inr u"
    and "get_prop d (lit ''filename'') = Inr fn"
    and "snd (uploadVideoFile net u fl) = Inr ()"
    and "snd (createVideoMetadata net (trim (uploadTitle st)) fn) = Inr ()"
  shows "progress_values (handleUpload net st) = [0, 20, 40, 80, 100] @ [0]
     \<and> sorted (butlast (progress_values (handleUpload net st)))
     \<and> requests (handleUpload net st) =
         [acquire_request, UploadAsync u fl,
          commit_request (trim (uploadTitle st)) fn, ready_request]
     \<and> uploadProgress (run_events st (handleUpload net st)) = 0
     \<and> \<not> uploading (run_events st (handleUpload net st))"
proof (cases rule: upload_body_cases [of net st fl])
  case (acquire e)
  with assms show ?thesis by simp
next
  case (nodata d e)
  with assms show ?thesis by simp
next
  case (transfer d u e)
  with assms show ?thesis by simp
next
  case (commit d u fn e)
  with assms show ?thesis by simp
next
  case (committed d' u' fn')
  with assms have eq: "d' = d" "u' = u" "fn' = fn" by simp_all
  note h = handleUpload_valid [OF assms(1-3), of net]
  from committed(6) eq show ?thesis
    by (simp add: h loadVideos_end_upload_state)
qed

theorem handleUpload_success_progress_witness:
  "selectedVideo demo_state = Some (lit ''file:///v.mp4'')
   \<and> trim (uploadTitle demo_state) = lit ''Demo''
   \<and> snd (getUploadURL demo_remote) \<noteq> Inl SyntaxError
   \<and> snd (uploadVideoFile demo_remote (Str (lit ''https://s3/k1'')) (lit ''file:///v.mp4'')) = Inr ()
   \<and> snd (createVideoMetadata demo_remote (lit ''Demo'') (Str (lit ''k1.mp4''))) = Inr ()
   \<and> progress_values (handleUpload demo_remote demo_state) = [0, 20, 40, 80, 100, 0]
   \<and> uploadProgress (run_events demo_state (handleUpload demo_remote demo_state)) = 0
   \<and> \<not> uploading (run_events demo_state (handleUpload demo_remote demo_state))"
proof -
  let ?d = "Obj [(lit ''filename'', Str (lit ''k1.mp4'')),
                 (lit ''url'', Str (lit ''https://s3/k1'')),
                 (lit ''video_id'', Str (lit ''7'')),
                 (lit ''videos'', Arr [Obj [(lit ''id'', Str (lit ''7''))]])]"
  have h1: "selectedVideo demo_state = Some (lit ''file:///v.mp4'')"
    by (simp add: demo_state_def)
  have h2: "lit ''file:///v.mp4'' \<noteq> []" by (simp add: lit_def)
  have t: "trim (uploadTitle demo_state) = lit ''Demo''"
    by (simp add: demo_state_def trim_def is_whitespace_def lit_def)
  then have h3: "trim (uploadTitle demo_state) \<noteq> []" by (simp add: lit_def)
  have h4: "snd (getUploadURL demo_remote) = Inr ?d"
    by (simp add: getUploadURL_def demo_remote_def)
  have h5: "get_prop ?d (lit ''url'') = Inr (Str (lit ''https://s3/k1''))"
    by (simp add: lit_def)
  have h6: "get_prop ?d (lit ''filename'') = Inr (Str (lit ''k1.mp4''))"
    by (simp add: lit_def)
  have h7: "snd (uploadVideoFile demo_remote (Str (lit ''https://s3/k1'')) (lit ''file:///v.mp4'')) = Inr ()"
    by (simp add: uploadVideoFile_def demo_remote_def)
  have h8: "snd (createVideoMetadata demo_remote (trim (uploadTitle demo_state)) (Str (lit ''k1.mp4''))) = Inr ()"
    by (simp add: createVideoMetadata_def demo_remote_def)
  from handleUpload_success_progress [OF h1 h2 h3 h4 h5 h6 h7 h8] h1 t h4 h7 h8
  show ?thesis by simp
qed

section \<open>Properties of the catalog and of playback-URL resolution\<close>

lemma get_prop_defined:
  "data \<noteq> Null \<Longrightarrow> data \<noteq> Undefined \<Longrightarrow> get_prop data name = Inr (get_prop_opt data name)"
  by (cases data) simp_all

lemma loadVideos_set_videos:
  "set_videos (loadVideos net b) =
     (case snd (getReadyVideos net) of
        Inl e \<Rightarrow> []
      | Inr fetched \<Rightarrow> [get_prop_opt fetched (lit ''videos'')])"
  by (simp add: loadVideos_def loadVideos_begin_def loadVideos_end_def getReadyVideos_trace
      split: sum.splits)

lemma loadVideos_failure_alert:
  "isl (snd (getReadyVideos net)) \<Longrightarrow>
     alerts (loadVideos net b) = [(lit ''Error'', lit ''Failed to load videos. Please try again.'')]"
  by (cases "snd (getReadyVideos net)")
    (simp_all add: loadVideos_def loadVideos_begin_def loadVideos_end_def getReadyVideos_trace)

lemma loadVideos_success_videos:
  "snd (getReadyVideos net) = Inr fetched \<Longrightarrow>
     videos (run_events st (loadVideos net b)) = get_prop_opt fetched (lit ''videos'')"
  by (simp add: loadVideos_def loadVideos_begin_def loadVideos_end_def getReadyVideos_trace)

lemma handleDeleteVideo_failure:
  assumes "isl (snd (deleteVideo net vid))"
  shows "set_videos (handleDeleteVideo net vid choice) = []"
    and "alerts (handleDeleteVideo net vid Delete) =
           [(lit ''Delete Video'', lit ''Are you sure you want to delete this video?''),
            (lit ''Error'', lit ''Failed to delete video.'')]"
    and "requests (handleDeleteVideo net vid Delete) = [delete_request vid]"
proof -
  obtain e where "snd (deleteVideo net vid) = Inl e"
    using assms by (cases "snd (deleteVideo net vid)") simp_all
  then have d: "deleteVideo net vid = ([Request (delete_request vid)], Inl e)"
    using deleteVideo_trace [of net vid] by (metis async_eq)
  show "set_videos (handleDeleteVideo net vid choice) = []"
    by (cases choice) (simp_all add: handleDeleteVideo_def d)
  show "alerts (handleDeleteVideo net vid Delete) =
           [(lit ''Delete Video'', lit ''Are you sure you want to delete this video?''),
            (lit ''Error'', lit ''Failed to delete video.'')]"
    by (simp add: handleDeleteVideo_def d)
  show "requests (handleDeleteVideo net vid Delete) = [delete_request vid]"
    by (simp add: handleDeleteVideo_def d)
qed

lemma handleDeleteVideo_refresh_failure:
  assumes "isl (snd (getReadyVideos net))"
  shows "set_videos (handleDeleteVideo net vid choice) = []"
proof -
  have l: "set_videos (loadVideos net False) = []"
    using assms by (cases "snd (getReadyVideos net)") (simp_all add: loadVideos_set_videos)
  have d: "deleteVideo net vid = ([Request (delete_request vid)], snd (deleteVideo net vid))"
    using deleteVideo_trace [of net vid] by (metis async_eq)
  show ?thesis
  proof (cases choice)
    case Cancel
    then show ?thesis by (simp add: handleDeleteVideo_def)
  next
    case Delete
    show ?thesis
    proof (cases "snd (deleteVideo net vid)")
      case (Inl e)
      then show ?thesis by (simp add: handleDeleteVideo_failure(1))
    next
      case (Inr x)
      with d have "deleteVideo net vid = ([Request (delete_request vid)], Inr x)" by simp
      with Delete l show ?thesis by (simp add: handleDeleteVideo_def)
    qed
  qed
qed

lemma handleUpload_refresh_failure:
  assumes "isl (snd (getReadyVideos net))"
  shows "set_videos (handleUpload net st) = []"
proof (cases "selectedVideo st = None \<or> selectedVideo st = Some [] \<or> trim (uploadTitle st) = []")
  case True
  then show ?thesis by (simp add: handleUpload_invalid)
next
  case False
  then obtain fl where v: "selectedVideo st = Some fl" "fl \<noteq> []" "trim (uploadTitle st) \<noteq> []"
    by auto
  note h = handleUpload_valid [OF v, of net]
  have e: "set_videos (loadVideos_end net) = []"
    using assms by (cases "snd (getReadyVideos net)") (simp_all add: loadVideos_end_def)
  show ?thesis
    by (cases rule: upload_body_cases [of net st fl]) (simp_all add: h e)
qed

text \<open>
  C9. When the catalog refresh fails, \<open>loadVideos\<close> shows its error alert and the
  \<open>videos\<close> snapshot is unchanged, also when the refresh was started by a deletion or by an
  upload. When the delete call fails, the handler shows its error alert, makes no further
  request and leaves \<open>videos\<close> unchanged. Only a successful refresh replaces the
  snapshot, with the \<open>videos\<close> field of the answer.
\<close>

theorem failures_keep_videos:
  "(isl (snd (getReadyVideos net)) \<longrightarrow>
      videos (run_events st (loadVideos net b)) = videos st
      \<and> alerts (loadVideos net b) =
          [(lit ''Error'', lit ''Failed to load videos. Please try again.'')]
      \<and> videos (run_events st (handleDeleteVideo net vid choice)) = videos st
      \<and> videos (run_events st (handleUpload net st)) = videos st)
   \<and> (isl (snd (deleteVideo net vid)) \<longrightarrow>
      videos (run_events st (handleDeleteVideo net vid choice)) = videos st
      \<and> alerts (handleDeleteVideo net vid Delete) =
          [(lit ''Delete Video'', lit ''Are you sure you want to delete this video?''),
           (lit ''Error'', lit ''Failed to delete video.'')]
      \<and> requests (handleDeleteVideo net vid Delete) = [delete_request vid])
   \<and> (\<forall>fetched. snd (getReadyVideos net) = Inr fetched \<longrightarrow>
      videos (run_events st (loadVideos net b)) = get_prop_opt fetched (lit ''videos''))"
proof (intro conjI impI allI)
  assume f: "isl (snd (getReadyVideos net))"
  then have "set_videos (loadVideos net b) = []"
    by (cases "snd (getReadyVideos net)") (simp_all add: loadVideos_set_videos)
  then show "videos (run_events st (loadVideos net b)) = videos st"
    by (rule no_set_videos_keeps)
  from f show "alerts (loadVideos net b) =
      [(lit ''Error'', lit ''Failed to load videos. Please try again.'')]"
    by (rule loadVideos_failure_alert)
  from f show "videos (run_events st (handleDeleteVideo net vid choice)) = videos st"
    by (intro no_set_videos_keeps handleDeleteVideo_refresh_failure)
  from f show "videos (run_events st (handleUpload net st)) = videos st"
    by (intro no_set_videos_keeps handleUpload_refresh_failure)
next
  assume f: "isl (snd (deleteVideo net vid))"
  then show "videos (run_events st (handleDeleteVideo net vid choice)) = videos st"
    by (intro no_set_videos_keeps handleDeleteVideo_failure(1))
  from f show "alerts (handleDeleteVideo net vid Delete) =
          [(lit ''Delete Video'', lit ''Are you sure you want to delete this video?''),
           (lit ''Error'', lit ''Failed to delete video.'')]"
    by (rule handleDeleteVideo_failure(2))
  from f show "requests (handleDeleteVideo net vid Delete) = [delete_request vid]"
    by (rule handleDeleteVideo_failure(3))
next
  fix fetched
  assume "snd (getReadyVideos net) = Inr fetched"
  then show "videos (run_events st (loadVideos net b)) = get_prop_opt fetched (lit ''videos'')"
    by (rule loadVideos_success_videos)
qed

theorem failures_keep_videos_witness:
  "isl (snd (getReadyVideos offline))
   \<and> isl (snd (deleteVideo offline (lit ''7'')))
   \<and> videos (run_events (demo_state\<lparr>videos := Arr [Str (lit ''kept'')]\<rparr>) (loadVideos offline True))
       = Arr [Str (lit ''kept'')]
   \<and> videos (run_events (demo_state\<lparr>videos := Arr [Str (lit ''kept'')]\<rparr>)
               (handleDeleteVideo offline (lit ''7'') Delete))
       = Arr [Str (lit ''kept'')]
   \<and> snd (getReadyVideos demo_remote) \<noteq> Inl SyntaxError
   \<and> videos (run_events (demo_state\<lparr>videos := Arr [Str (lit ''kept'')]\<rparr>) (loadVideos demo_remote True))
       = Arr [Obj [(lit ''id'', Str (lit ''7''))]]"
proof -
  let ?st = "demo_state\<lparr>videos := Arr [Str (lit ''kept'')]\<rparr>"
  let ?d = "Obj [(lit ''filename'', Str (lit ''k1.mp4'')),
                 (lit ''url'', Str (lit ''https://s3/k1'')),
                 (lit ''video_id'', Str (lit ''7'')),
                 (lit ''videos'', Arr [Obj [(lit ''id'', Str (lit ''7''))]])]"
  have a: "isl (snd (getReadyVideos offline))"
    by (simp add: getReadyVideos_def offline_def)
  have b: "isl (snd (deleteVideo offline (lit ''7'')))"
    by (simp add: deleteVideo_def offline_def)
  have c: "snd (getReadyVideos demo_remote) = Inr ?d"
    by (simp add: getReadyVideos_def demo_remote_def)
  have v: "get_prop_opt ?d (lit ''videos'') = Arr [Obj [(lit ''id'', Str (lit ''7''))]]"
    by (simp add: lit_def)
  from failures_keep_videos [of offline ?st True "lit ''7''" Delete] a b
  have "videos (run_events ?st (loadVideos offline True)) = videos ?st"
    and "videos (run_events ?st (handleDeleteVideo offline (lit ''7'') Delete)) = videos ?st"
    by blast+
  moreover from failures_keep_videos [of demo_remote ?st True "lit ''7''" Delete] c
  have "videos (run_events ?st (loadVideos demo_remote True)) = get_prop_opt ?d (lit ''videos'')"
    by blast
  ultimately show ?thesis using a b c v by simp
qed

text \<open>
  C10. \<open>getPlaybackURL\<close> makes one request. On a response that is not \<open>ok\<close> it fails
  with an error carrying the status text. On an \<open>ok\<close> response whose body is a JSON value
  other than \<open>null\<close> it returns the field \<open>url\<close> when that is present and truthy, and
  the field \<open>playback_url\<close> otherwise.
\<close>

theorem getPlaybackURL_field_fallback:
  "net (playback_request vid) = Inr r \<Longrightarrow>
     fst (getPlaybackURL net vid) = [Request (playback_request vid)]
     \<and> (\<not> ok r \<longrightarrow>
          snd (getPlaybackURL net vid) =
            Inl (Error (lit ''Failed to get playback URL: '' @ statusText r)))
     \<and> (\<forall>data. ok r \<and> json r = Some data \<and> data \<noteq> Null \<and> data \<noteq> Undefined \<longrightarrow>
          snd (getPlaybackURL net vid) =
            Inr (if truthy (get_prop_opt data (lit ''url''))
                 then get_prop_opt data (lit ''url'')
                 else get_prop_opt data (lit ''playback_url'')))"
  by (simp add: getPlaybackURL_def playback_request_def get_prop_defined)

theorem getPlaybackURL_field_fallback_witness:
  "ok \<lparr>ok = True, http_status = 200, statusText = lit ''OK'',
        json = Some (Obj [(lit ''url'', Str []),
                          (lit ''playback_url'', Str (lit ''https://cdn/7.m3u8''))])\<rparr>
   \<and> snd (getPlaybackURL playback_remote (lit ''7'')) = Inr (Str (lit ''https://cdn/7.m3u8''))"
proof -
  let ?d = "Obj [(lit ''url'', Str []), (lit ''playback_url'', Str (lit ''https://cdn/7.m3u8''))]"
  let ?r = "\<lparr>ok = True, http_status = 200, statusText = lit ''OK'', json = Some ?d\<rparr>"
  have n: "playback_remote (playback_request (lit ''7'')) = Inr ?r"
    by (simp add: playback_remote_def)
  have f: "get_prop_opt ?d (lit ''url'') = Str []"
    "get_prop_opt ?d (lit ''playback_url'') = Str (lit ''https://cdn/7.m3u8'')"
    by (simp_all add: lit_def)
  have k: "ok ?r" "json ?r = Some ?d" "?d \<noteq> Null" "?d \<noteq> Undefined"
    by simp_all
  from getPlaybackURL_field_fallback [of playback_remote "lit ''7''", OF n] k
  have "snd (getPlaybackURL playback_remote (lit ''7'')) =
            Inr (if truthy (get_prop_opt ?d (lit ''url''))
                 then get_prop_opt ?d (lit ''url'')
                 else get_prop_opt ?d (lit ''playback_url''))"
    by blast
  then show ?thesis unfolding f by simp
qed

section \<open>Properties of seeking, rate cycling and progress\<close>

text \<open>
  C4. A tap on the seek track at horizontal offset \<open>x\<close> never changes the state of the
  screen. It is a no-op, without any command to the engine, when the measured width is 0,
  the media is not loaded or the duration is absent or 0. Otherwise (with the engine
  attached) the engine is asked to jump to \<open>ratio * durationMillis\<close>, where the ratio is
  \<open>x / width\<close> clamped to the closed interval from 0 to 1: a tap at \<open>x = 0\<close> seeks to ratio
  0 and a tap at \<open>x = width\<close> to ratio 1.
\<close>

theorem handleSeek_clamped:
  "foldl apply_player st (handleSeek st x) = st
   \<and> (progressBarWidth st = 0 \<or> \<not> isLoaded (status st) \<or> durationMillis (status st) = None
        \<or> durationMillis (status st) = Some 0
      \<longrightarrow> handleSeek st x = [])
   \<and> (progressBarWidth st \<noteq> 0 \<and> isLoaded (status st) \<and> durationMillis (status st) = Some d
        \<and> d \<noteq> 0 \<and> videoRef st
      \<longrightarrow> handleSeek st x =
            [SetPositionAsync
               ((if x / progressBarWidth st \<le> 0 then 0
                 else if 1 \<le> x / progressBarWidth st then 1
                 else x / progressBarWidth st) * d)]
          \<and> handleSeek st 0 = [SetPositionAsync (0 * d)]
          \<and> handleSeek st (progressBarWidth st) = [SetPositionAsync (1 * d)])"
proof (intro conjI impI)
  show "foldl apply_player st (handleSeek st x) = st"
    by (simp add: handleSeek_def seekTo_def Let_def split: option.splits)
next
  assume "progressBarWidth st = 0 \<or> \<not> isLoaded (status st) \<or> durationMillis (status st) = None
        \<or> durationMillis (status st) = Some 0"
  then show "handleSeek st x = []"
    by (auto simp: handleSeek_def)
next
  assume a: "progressBarWidth st \<noteq> 0 \<and> isLoaded (status st) \<and> durationMillis (status st) = Some d
        \<and> d \<noteq> 0 \<and> videoRef st"
  have r: "\<And>y. handleSeek st y = [SetPositionAsync (min (max (y / progressBarWidth st) 0) 1 * d)]"
    using a by (simp add: handleSeek_def seekTo_def Let_def)
  have c: "min (max (x / progressBarWidth st) 0) 1 =
      (if x / progressBarWidth st \<le> 0 then 0
       else if 1 \<le> x / progressBarWidth st then 1
       else x / progressBarWidth st)"
    by (simp add: min_def max_def)
  show "handleSeek st x =
            [SetPositionAsync
               ((if x / progressBarWidth st \<le> 0 then 0
                 else if 1 \<le> x / progressBarWidth st then 1
                 else x / progressBarWidth st) * d)]"
    unfolding r c ..
  show "handleSeek st 0 = [SetPositionAsync (0 * d)]"
    unfolding r by simp
  show "handleSeek st (progressBarWidth st) = [SetPositionAsync (1 * d)]"
    unfolding r using a by simp
qed

theorem handleSeek_clamped_witness:
  "progressBarWidth demo_player = 200 \<and> isLoaded (status demo_player)
   \<and> durationMillis (status demo_player) = Some 150000 \<and> videoRef demo_player
   \<and> handleSeek demo_player 0 = [SetPositionAsync 0]
   \<and> handleSeek demo_player 200 = [SetPositionAsync 150000]
   \<and> handleSeek demo_player 50 = [SetPositionAsync 37500]
   \<and> handleSeek demo_player 260 = [SetPositionAsync 150000]
   \<and> handleSeek demo_player (- 5) = [SetPositionAsync 0]
   \<and> handleSeek (demo_player\<lparr>progressBarWidth := 0\<rparr>) 50 = []"
proof -
  have h: "progressBarWidth demo_player = 200" "isLoaded (status demo_player)"
    "durationMillis (status demo_player) = Some 150000" "videoRef demo_player"
    by (simp_all add: demo_player_def player_initial_def loaded_status_def)
  have z: "progressBarWidth (demo_player\<lparr>progressBarWidth := 0\<rparr>) = 0" by simp
  from handleSeek_clamped [of demo_player 0 150000] h
  have a: "handleSeek demo_player 0 = [SetPositionAsync 0]"
    and b: "handleSeek demo_player 200 = [SetPositionAsync 150000]"
    by simp_all
  from handleSeek_clamped [of demo_player 50 150000] h
  have c: "handleSeek demo_player 50 = [SetPositionAsync 37500]" by simp
  from handleSeek_clamped [of demo_player 260 150000] h
  have d: "handleSeek demo_player 260 = [SetPositionAsync 150000]" by simp
  from handleSeek_clamped [of demo_player "- 5" 150000] h
  have e: "handleSeek demo_player (- 5) = [SetPositionAsync 0]" by simp
  from handleSeek_clamped [of "demo_player\<lparr>progressBarWidth := 0\<rparr>" 50] z
  have f: "handleSeek (demo_player\<lparr>progressBarWidth := 0\<rparr>) 50 = []" by blast
  from h a b c d e f show ?thesis by simp
qed

lemma nextRate_values:
  "nextRate (1 / 2) = 3 / 4" "nextRate (3 / 4) = 1" "nextRate 1 = 5 / 4"
  "nextRate (5 / 4) = 3 / 2" "nextRate (3 / 2) = 2" "nextRate 2 = 1 / 2"
  by (simp_all add: nextRate_def rates_def signed_modulo_int_def)

lemma ball_rates:
  "(\<forall>r \<in> set rates. P r) \<longleftrightarrow> P (1 / 2) \<and> P (3 / 4) \<and> P 1 \<and> P (5 / 4) \<and> P (3 / 2) \<and> P 2"
  by (simp add: rates_def)

lemma indexOf_bounds: "- 1 \<le> indexOf xs x \<and> indexOf xs x < int (length xs)"
  by (induction xs) (auto simp: Let_def)

text \<open>
  C5. On the six rates 0.5, 0.75, 1.0, 1.25, 1.5, 2.0 the rate cycle moves to the next entry
  and wraps from 2.0 to 0.5; from 1.0 it moves to 1.25; it is a bijection of the set onto
  itself and six applications return the starting rate. The index it reads is always within
  the array. \<open>changePlaybackRate\<close> stores the next rate locally first, whether or not the
  engine is then asked to apply it.
\<close>

theorem changePlaybackRate_cycle:
  "(\<forall>r \<in> set rates.
       nextRate r \<in> set rates
     \<and> indexOf rates (nextRate r) = (indexOf rates r + 1) mod 6
     \<and> nextRate (nextRate (nextRate (nextRate (nextRate (nextRate r))))) = r)
   \<and> map nextRate rates = [0.75, 1.0, 1.25, 1.5, 2.0, 0.5]
   \<and> nextRate 2.0 = 0.5
   \<and> nextRate 1.0 = 1.25
   \<and> bij_betw nextRate (set rates) (set rates)
   \<and> 0 \<le> (indexOf rates r' + 1) smod int (length rates)
   \<and> (indexOf rates r' + 1) smod int (length rates) < int (length rates)
   \<and> changePlaybackRate st =
        SetPlaybackRate (nextRate (playbackRate st))
        # (if videoRef st \<and> isLoaded (status st)
           then [SetRateAsync (nextRate (playbackRate st)) True] else [])
   \<and> playbackRate (foldl apply_player st (changePlaybackRate st)) = nextRate (playbackRate st)"
proof (intro conjI)
  show "\<forall>r \<in> set rates.
       nextRate r \<in> set rates
     \<and> indexOf rates (nextRate r) = (indexOf rates r + 1) mod 6
     \<and> nextRate (nextRate (nextRate (nextRate (nextRate (nextRate r))))) = r"
    unfolding ball_rates by (simp add: nextRate_values) (simp add: rates_def)
next
  show "map nextRate rates = [0.75, 1.0, 1.25, 1.5, 2.0, 0.5]"
    by (simp add: rates_def nextRate_values)
  show "nextRate 2.0 = 0.5" by (simp add: nextRate_values)
  show "nextRate 1.0 = 1.25" by (simp add: nextRate_values)
  show "bij_betw nextRate (set rates) (set rates)"
  proof -
    have i: "inj_on nextRate (set rates)"
      by (simp add: rates_def nextRate_values)
    have "nextRate ` set rates = set (map nextRate rates)" by simp
    also have "\<dots> = set [0.75, 1.0, 1.25, 1.5, 2.0, 0.5]"
      by (simp add: rates_def nextRate_values)
    also have "\<dots> = set rates" by (auto simp: rates_def)
    finally show ?thesis using i by (simp add: bij_betw_def)
  qed
  have b: "0 \<le> indexOf rates r' + 1" "indexOf rates r' + 1 \<le> 6"
    using indexOf_bounds [of rates r'] by (simp_all add: rates_def)
  then show "0 \<le> (indexOf rates r' + 1) smod int (length rates)"
    by (simp add: signed_modulo_int_def rates_def sgn_if)
  from b show "(indexOf rates r' + 1) smod int (length rates) < int (length rates)"
    by (simp add: signed_modulo_int_def rates_def sgn_if)
  show "changePlaybackRate st =
        SetPlaybackRate (nextRate (playbackRate st))
        # (if videoRef st \<and> isLoaded (status st)
           then [SetRateAsync (nextRate (playbackRate st)) True] else [])"
    by (simp add: changePlaybackRate_def)
  show "playbackRate (foldl apply_player st (changePlaybackRate st)) = nextRate (playbackRate st)"
    by (simp add: changePlaybackRate_def)
qed

theorem changePlaybackRate_cycle_witness:
  "2.0 \<in> set rates \<and> nextRate 2.0 = 0.5 \<and> indexOf rates 2.0 = 5 \<and> indexOf rates 0.5 = 0
   \<and> nextRate (nextRate (nextRate (nextRate (nextRate (nextRate 2.0))))) = 2.0"
proof -
  have m: "2.0 \<in> set rates" by (simp add: rates_def)
  have i: "indexOf rates 2.0 = 5" "indexOf rates 0.5 = 0" by (simp_all add: rates_def)
  from changePlaybackRate_cycle [of 0 player_initial] m
  have "nextRate (nextRate (nextRate (nextRate (nextRate (nextRate 2.0))))) = 2.0"
    and "nextRate 2.0 = 0.5"
    by blast+
  with m i show ?thesis by simp
qed

text \<open>
  C8. A status update with position 75000 ms and duration 150000 ms sets the progress ratio
  to 0.5. A following update with position 0 and the same duration leaves it at 0.5, where
  \<open>positionMillis / durationMillis\<close> is 0: the effect tests the position for truthiness
  and skips the assignment at position 0.
\<close>

theorem progress_stale_at_position_zero:
  "progressValue (ui (run mount [StatusUpdate (loaded_status 75000 150000)])) = 0.5
   \<and> progressValue (ui (run mount [StatusUpdate (loaded_status 75000 150000),
                                     StatusUpdate (loaded_status 0 150000)])) = 0.5
   \<and> positionMillis (status (ui (run mount [StatusUpdate (loaded_status 75000 150000),
                                     StatusUpdate (loaded_status 0 150000)]))) = Some 0
   \<and> durationMillis (status (ui (run mount [StatusUpdate (loaded_status 75000 150000),
                                     StatusUpdate (loaded_status 0 150000)]))) = Some 150000"
  by (simp add: run_def mount_def dispatch_def run_effects_def onPlaybackStatusUpdate_def
      loaded_status_def player_initial_def progress_effect_def controls_hide_effect_def
      controls_hide_cleanup_def clearTimeout_def setTimeout_def Let_def)

section \<open>Properties of the hide timer\<close>

lemma progress_effect_keeps:
  "showControls (foldl apply_player st (progress_effect st)) = showControls st"
  "isLoading (foldl apply_player st (progress_effect st)) = isLoading st"
  by (simp_all add: progress_effect_def split: option.splits)

lemma hide_inv_mount: "hide_inv mount"
  by (simp add: hide_inv_def visible_def mount_def controls_hide_effect_def player_initial_def
      progress_effect_def Let_def)

text \<open>What one render does to the timer queue.\<close>

lemma run_effects_timer:
  assumes "if fst (hideDeps rt) \<and> \<not> snd (hideDeps rt)
           then \<exists>h due. timers rt = [(h, due)] \<and> hideTimeout rt = Some h
                  \<and> now rt < due \<and> due \<le> now rt + 3000
           else timers rt = [] \<and> hideTimeout rt = None"
  shows "hide_inv (run_effects rt)"
    and "now (run_effects rt) = now rt"
    and "fired (run_effects rt) = fired rt"
    and "showControls (ui (run_effects rt)) = showControls (ui rt)"
    and "isLoading (ui (run_effects rt)) = isLoading (ui rt)"
    and "(showControls (ui rt), isLoading (ui rt)) \<noteq> hideDeps rt \<Longrightarrow> visible rt \<Longrightarrow>
           timers (run_effects rt) = [(nextHandle rt, now rt + 3000)]"
proof -
  define rt1 where "rt1 =
        (if (showControls (ui rt), isLoading (ui rt)) \<noteq> hideDeps rt
         then (controls_hide_effect (controls_hide_cleanup rt))
                \<lparr>hideDeps := (showControls (ui rt), isLoading (ui rt))\<rparr>
         else rt)"
  have ui1: "ui rt1 = ui rt"
    by (simp add: rt1_def controls_hide_effect_def controls_hide_cleanup_def clearTimeout_def
        setTimeout_def split: option.splits)
  have now1: "now rt1 = now rt" and fired1: "fired rt1 = fired rt"
    by (simp_all add: rt1_def controls_hide_effect_def controls_hide_cleanup_def clearTimeout_def
        setTimeout_def split: option.splits)
  have cleared: "timers (controls_hide_cleanup rt) = []"
    using assms
    by (auto simp: controls_hide_cleanup_def clearTimeout_def split: if_splits option.splits)
  have armed: "(showControls (ui rt), isLoading (ui rt)) \<noteq> hideDeps rt \<Longrightarrow> visible rt \<Longrightarrow>
      timers rt1 = [(nextHandle rt, now rt + 3000)]"
    using cleared
    by (simp add: rt1_def visible_def controls_hide_effect_def controls_hide_cleanup_def
        clearTimeout_def setTimeout_def split: option.splits)
  have inv1: "hide_inv rt1"
  proof (cases "(showControls (ui rt), isLoading (ui rt)) \<noteq> hideDeps rt")
    case True
    then have e: "rt1 = (controls_hide_effect (controls_hide_cleanup rt))
                \<lparr>hideDeps := (showControls (ui rt), isLoading (ui rt))\<rparr>"
      by (simp add: rt1_def)
    show ?thesis
      unfolding e using cleared
      by (simp add: hide_inv_def visible_def controls_hide_effect_def controls_hide_cleanup_def
          clearTimeout_def setTimeout_def split: option.splits)
  next
    case False
    then have e: "rt1 = rt" by (simp add: rt1_def)
    from False have d: "hideDeps rt = (showControls (ui rt), isLoading (ui rt))" by simp
    show ?thesis
      unfolding e using assms by (simp add: hide_inv_def visible_def d)
  qed
  have r: "run_effects rt =
      (if (positionMillis (status (ui rt1)), durationMillis (status (ui rt1))) \<noteq> progressDeps rt1
       then rt1\<lparr>ui := foldl apply_player (ui rt1) (progress_effect (ui rt1)),
                progressDeps := (positionMillis (status (ui rt1)), durationMillis (status (ui rt1)))\<rparr>
       else rt1)"
    by (simp add: run_effects_def rt1_def Let_def)
  show "hide_inv (run_effects rt)"
    using inv1 by (simp add: r hide_inv_def visible_def progress_effect_keeps)
  show "now (run_effects rt) = now rt" by (simp add: r now1)
  show "fired (run_effects rt) = fired rt" by (simp add: r fired1)
  show "showControls (ui (run_effects rt)) = showControls (ui rt)"
    by (simp add: r progress_effect_keeps ui1)
  show "isLoading (ui (run_effects rt)) = isLoading (ui rt)"
    by (simp add: r progress_effect_keeps ui1)
  show "(showControls (ui rt), isLoading (ui rt)) \<noteq> hideDeps rt \<Longrightarrow> visible rt \<Longrightarrow>
           timers (run_effects rt) = [(nextHandle rt, now rt + 3000)]"
    using armed by (simp add: r)
qed

lemma hide_inv_pre:
  assumes "hide_inv rt"
  shows "if fst (hideDeps (rt\<lparr>ui := u\<rparr>)) \<and> \<not> snd (hideDeps (rt\<lparr>ui := u\<rparr>))
         then \<exists>h due. timers (rt\<lparr>ui := u\<rparr>) = [(h, due)] \<and> hideTimeout (rt\<lparr>ui := u\<rparr>) = Some h
                \<and> now (rt\<lparr>ui := u\<rparr>) < due \<and> due \<le> now (rt\<lparr>ui := u\<rparr>) + 3000
         else timers (rt\<lparr>ui := u\<rparr>) = [] \<and> hideTimeout (rt\<lparr>ui := u\<rparr>) = None"
  using assms by (simp add: hide_inv_def visible_def)

lemma dispatch_inv:
  assumes "hide_inv rt"
  shows "hide_inv (dispatch rt es)"
    and "now (dispatch rt es) = now rt"
    and "fired (dispatch rt es) = fired rt"
  unfolding dispatch_def
  using run_effects_timer(1-3) [OF hide_inv_pre [OF assms]] by simp_all

lemma dispatch_arms:
  assumes "hide_inv rt" and "\<not> visible rt" and "visible (dispatch rt es)"
  shows "timers (dispatch rt es) = [(nextHandle rt, now rt + 3000)]"
proof -
  let ?rt = "rt\<lparr>ui := foldl apply_player (ui rt) es\<rparr>"
  note p = hide_inv_pre [OF assms(1), of "foldl apply_player (ui rt) es"]
  have v: "visible ?rt"
    using assms(3) run_effects_timer(4,5) [OF p]
    by (simp add: dispatch_def visible_def)
  have "hideDeps ?rt = (showControls (ui rt), isLoading (ui rt))"
    using assms(1) by (simp add: hide_inv_def)
  with v assms(2) have "(showControls (ui ?rt), isLoading (ui ?rt)) \<noteq> hideDeps ?rt"
    by (auto simp: visible_def)
  from run_effects_timer(6) [OF p this v] show ?thesis
    by (simp add: dispatch_def)
qed

lemma advance_idle:
  "next_due t rt = None \<Longrightarrow> advance t rt = rt\<lparr>now := max (now rt) t\<rparr>"
  by (subst advance.simps) simp

lemma advance_fire:
  "next_due t rt = Some tm \<Longrightarrow> advance t rt = advance t (fire rt tm)"
  by (subst advance.simps) simp

lemma next_due_empty [simp]: "timers rt = [] \<Longrightarrow> next_due t rt = None"
  by (simp add: next_due_def)

lemma next_due_single:
  "timers rt = [(h, due)] \<Longrightarrow> next_due t rt = (if due \<le> t then Some (h, due) else None)"
  by (simp add: next_due_def)

lemma fire_inv:
  assumes "hide_inv rt" and "timers rt = [(h, due)]"
  shows "hide_inv (fire rt (h, due))"
    and "timers (fire rt (h, due)) = []"
    and "fired (fire rt (h, due)) = fired rt @ [h]"
    and "\<not> showControls (ui (fire rt (h, due)))"
    and "now (fire rt (h, due)) = max (now rt) due"
proof -
  let ?rt = "rt\<lparr>timers := filter (\<lambda>x. fst x \<noteq> fst (h, due)) (timers rt),
                 now := max (now rt) (snd (h, due)),
                 fired := fired rt @ [fst (h, due)],
                 ui := foldl apply_player (ui rt) controls_hide_callback\<rparr>"
  have f: "fire rt (h, due) = run_effects ?rt"
    by (simp add: fire_def dispatch_def)
  have v: "visible rt"
    using assms by (auto simp: hide_inv_def split: if_splits)
  then have d: "hideDeps rt = (True, False)"
    using assms(1) by (simp add: hide_inv_def visible_def)
  have t: "hideTimeout rt = Some h"
    using assms v by (auto simp: hide_inv_def)
  have nv: "\<not> showControls (ui ?rt)"
    by (simp add: controls_hide_callback_def)
  have r: "run_effects ?rt =
      (let rt1 = (controls_hide_effect (controls_hide_cleanup ?rt))
                \<lparr>hideDeps := (showControls (ui ?rt), isLoading (ui ?rt))\<rparr>
       in if (positionMillis (status (ui rt1)), durationMillis (status (ui rt1))) \<noteq> progressDeps rt1
          then rt1\<lparr>ui := foldl apply_player (ui rt1) (progress_effect (ui rt1)),
                   progressDeps := (positionMillis (status (ui rt1)), durationMillis (status (ui rt1)))\<rparr>
          else rt1)"
    using d by (simp add: run_effects_def controls_hide_callback_def)
  show "hide_inv (fire rt (h, due))"
    unfolding f r using assms(2) t
    by (simp add: Let_def hide_inv_def visible_def controls_hide_effect_def
        controls_hide_cleanup_def clearTimeout_def controls_hide_callback_def
        progress_effect_keeps)
  show "timers (fire rt (h, due)) = []"
    unfolding f r using assms(2) t
    by (simp add: Let_def controls_hide_effect_def controls_hide_cleanup_def clearTimeout_def
        controls_hide_callback_def)
  show "fired (fire rt (h, due)) = fired rt @ [h]"
    unfolding f r
    by (simp add: Let_def controls_hide_effect_def controls_hide_cleanup_def clearTimeout_def
        controls_hide_callback_def split: option.splits)
  show "\<not> showControls (ui (fire rt (h, due)))"
    unfolding f r
    by (simp add: Let_def controls_hide_effect_def controls_hide_cleanup_def clearTimeout_def
        controls_hide_callback_def progress_effect_keeps split: option.splits)
  show "now (fire rt (h, due)) = max (now rt) due"
    unfolding f r
    by (simp add: Let_def controls_hide_effect_def controls_hide_cleanup_def clearTimeout_def
        controls_hide_callback_def split: option.splits)
qed

text \<open>Time passing fires the pending timer at most once.\<close>

lemma advance_cases [consumes 1, case_names idle hide]:
  assumes "hide_inv rt"
  obtains
    (idle) "next_due t rt = None" "advance t rt = rt\<lparr>now := max (now rt) t\<rparr>"
  | (hide) h due where "timers rt = [(h, due)]" "due \<le> t"
      "advance t rt = (fire rt (h, due))\<lparr>now := max (now rt) t\<rparr>"
proof (cases "next_due t rt")
  case None
  then show ?thesis using advance_idle idle by blast
next
  case (Some tm)
  then have m: "tm \<in> set (timers rt)" "snd tm \<le> t"
    using next_due_mem by blast+
  with assms obtain h due where s: "timers rt = [(h, due)]"
    by (auto simp: hide_inv_def split: if_splits)
  with m have tm: "tm = (h, due)" "due \<le> t" by auto
  have "now rt < due"
    using assms s by (auto simp: hide_inv_def split: if_splits)
  with tm have mx: "max (max (now rt) due) t = max (now rt) t" by simp
  note f = fire_inv [OF assms s]
  have "advance t rt = advance t (fire rt (h, due))"
    using Some tm by (simp add: advance_fire)
  also have "\<dots> = (fire rt (h, due))\<lparr>now := max (now (fire rt (h, due))) t\<rparr>"
    using f(2) by (simp add: advance_idle)
  finally have "advance t rt = (fire rt (h, due))\<lparr>now := max (now rt) t\<rparr>"
    by (simp add: f(5) mx)
  with s tm show ?thesis using hide by blast
qed

lemma advance_inv:
  assumes "hide_inv rt"
  shows "hide_inv (advance t rt)"
  using assms
proof (cases rule: advance_cases [where t = t])
  case idle
  have "\<forall>tm \<in> set (timers rt). t < snd tm"
  proof
    fix tm assume "tm \<in> set (timers rt)"
    with assms have "timers rt = [tm]"
      by (auto simp: hide_inv_def split: if_splits)
    then have "next_due t rt = (if snd tm \<le> t then Some tm else None)"
      using next_due_single [of rt "fst tm" "snd tm" t] by simp
    with idle(1) show "t < snd tm" by (simp split: if_splits)
  qed
  with assms show ?thesis
    unfolding idle(2) by (auto simp: hide_inv_def visible_def split: if_splits)
next
  case (hide h due)
  from fire_inv(1) [OF assms hide(1)] fire_inv(2) [OF assms hide(1)]
  show ?thesis
    unfolding hide(3) by (auto simp: hide_inv_def visible_def split: if_splits)
qed

lemma step_inv: "hide_inv rt \<Longrightarrow> hide_inv (step rt i)"
  by (cases i) (simp_all add: dispatch_inv(1) advance_inv)

lemma run_inv: "hide_inv rt \<Longrightarrow> hide_inv (run rt inputs)"
  unfolding run_def by (induction inputs arbitrary: rt) (simp_all add: step_inv)

lemmas player_defs =
  run_def mount_def dispatch_def run_effects_def onPlaybackStatusUpdate_def handleScreenTap_def
  loaded_status_def player_initial_def progress_effect_def controls_hide_effect_def
  controls_hide_cleanup_def controls_hide_callback_def clearTimeout_def setTimeout_def
  next_due_def fire_def advance.simps visible_def Let_def

lemma two_arms_run:
  "nextHandle (run mount two_arms) = 2 \<and> fired (run mount two_arms) = [1]
   \<and> \<not> showControls (ui (run mount two_arms)) \<and> now (run mount two_arms) = 10200"
  by (simp add: two_arms_def player_defs)

text \<open>
  C6. After any sequence of status updates, taps and elapsed time since the screen mounted:
  at most one hide timer is pending; one is pending exactly when the controls are visible
  and the player is not loading; the pending timer is the one armed by the last run of the
  effect and is due within 3000 ms; a step that makes the controls visible (and not
  loading) leaves exactly one timer, due 3000 ms later; any period of time fires at most
  one hide callback; and 3000 ms without an event hide the visible controls, by one
  callback. In the run \<open>two_arms\<close> the timer is armed twice and exactly one hide callback
  runs.
\<close>

theorem hide_timer_single_shot:
  "length (timers (run mount inputs)) \<le> 1
   \<and> (timers (run mount inputs) \<noteq> [] \<longleftrightarrow> visible (run mount inputs))
   \<and> (\<forall>tm \<in> set (timers (run mount inputs)).
         hideTimeout (run mount inputs) = Some (fst tm)
         \<and> now (run mount inputs) < snd tm
         \<and> snd tm \<le> now (run mount inputs) + 3000)
   \<and> (\<not> visible (run mount inputs) \<and> visible (step (run mount inputs) i) \<longrightarrow>
         timers (step (run mount inputs) i) =
           [(nextHandle (run mount inputs), now (run mount inputs) + 3000)])
   \<and> length (fired (step (run mount inputs) (Elapse d))) \<le> Suc (length (fired (run mount inputs)))
   \<and> (visible (run mount inputs) \<longrightarrow>
         \<not> showControls (ui (step (run mount inputs) (Elapse 3000)))
         \<and> timers (step (run mount inputs) (Elapse 3000)) = []
         \<and> length (fired (step (run mount inputs) (Elapse 3000)))
             = Suc (length (fired (run mount inputs))))
   \<and> nextHandle (run mount two_arms) = 2
   \<and> fired (run mount two_arms) = [1]"
proof -
  define rt where "rt = run mount inputs"
  have inv: "hide_inv rt"
    unfolding rt_def by (rule run_inv) (rule hide_inv_mount)
  have a: "length (timers rt) \<le> 1"
    using inv by (auto simp: hide_inv_def split: if_splits)
  have b: "timers rt \<noteq> [] \<longleftrightarrow> visible rt"
    using inv by (auto simp: hide_inv_def split: if_splits)
  have c: "\<forall>tm \<in> set (timers rt).
         hideTimeout rt = Some (fst tm) \<and> now rt < snd tm \<and> snd tm \<le> now rt + 3000"
    using inv by (auto simp: hide_inv_def split: if_splits)
  have d: "\<not> visible rt \<and> visible (step rt i) \<longrightarrow>
         timers (step rt i) = [(nextHandle rt, now rt + 3000)]"
  proof (intro impI, elim conjE)
    assume nv: "\<not> visible rt" and v: "visible (step rt i)"
    show "timers (step rt i) = [(nextHandle rt, now rt + 3000)]"
    proof (cases i)
      case (Elapse k)
      from nv b have "timers rt = []" by simp
      then have "advance (now rt + k) rt = rt\<lparr>now := max (now rt) (now rt + k)\<rparr>"
        by (simp add: advance_idle)
      with Elapse v nv show ?thesis by (simp add: visible_def)
    qed (use nv v in \<open>simp_all add: dispatch_arms [OF inv]\<close>)
  qed
  have e: "length (fired (step rt (Elapse d))) \<le> Suc (length (fired rt))"
    using inv
  proof (cases rule: advance_cases [where t = "now rt + d"])
    case idle
    then show ?thesis by simp
  next
    case (hide h due)
    then show ?thesis by (simp add: fire_inv(3) [OF inv hide(1)])
  qed
  have f: "visible rt \<longrightarrow>
         \<not> showControls (ui (step rt (Elapse 3000)))
         \<and> timers (step rt (Elapse 3000)) = []
         \<and> length (fired (step rt (Elapse 3000))) = Suc (length (fired rt))"
  proof
    assume v: "visible rt"
    with inv obtain h due where s: "timers rt = [(h, due)]" "due \<le> now rt + 3000"
      by (auto simp: hide_inv_def)
    then have n: "next_due (now rt + 3000) rt = Some (h, due)"
      by (simp add: next_due_single)
    from inv show "\<not> showControls (ui (step rt (Elapse 3000)))
         \<and> timers (step rt (Elapse 3000)) = []
         \<and> length (fired (step rt (Elapse 3000))) = Suc (length (fired rt))"
    proof (cases rule: advance_cases [where t = "now rt + 3000"])
      case idle
      with n show ?thesis by simp
    next
      case (hide h' due')
      then show ?thesis
        by (simp add: fire_inv(2,3,4) [OF inv hide(1)])
    qed
  qed
  from a b c d e f two_arms_run show ?thesis
    unfolding rt_def by blast
qed

theorem hide_timer_single_shot_witness:
  "visible (run mount [StatusUpdate (loaded_status 0 150000)])
   \<and> timers (run mount [StatusUpdate (loaded_status 0 150000)]) = [(0, 3000)]
   \<and> \<not> showControls (ui (step (run mount [StatusUpdate (loaded_status 0 150000)]) (Elapse 3000)))
   \<and> length (fired (step (run mount [StatusUpdate (loaded_status 0 150000)]) (Elapse 3000))) = 1
   \<and> \<not> visible (run mount [StatusUpdate (loaded_status 0 150000), ScreenTap])
   \<and> timers (run mount [StatusUpdate (loaded_status 0 150000), ScreenTap]) = []"
proof -
  let ?rt = "run mount [StatusUpdate (loaded_status 0 150000)]"
  let ?rt2 = "run mount [StatusUpdate (loaded_status 0 150000), ScreenTap]"
  have v: "visible ?rt" by (simp add: player_defs)
  have t: "timers ?rt = [(0, 3000)]" by (simp add: player_defs)
  have z: "fired ?rt = []" by (simp add: player_defs)
  have nv: "\<not> visible ?rt2" by (simp add: player_defs)
  from hide_timer_single_shot [of "[StatusUpdate (loaded_status 0 150000)]"] v
  have "\<not> showControls (ui (step ?rt (Elapse 3000)))"
    and "length (fired (step ?rt (Elapse 3000))) = Suc (length (fired ?rt))"
    by blast+
  moreover from hide_timer_single_shot [of "[StatusUpdate (loaded_status 0 150000), ScreenTap]"] nv
  have "timers ?rt2 = []" by blast
  ultimately show ?thesis using v t z nv by simp
qed

end
